theory Spec2Isabelle
  imports Complex_Main
begin

section \<open>JavaScript numbers, typed arrays and loops\<close>

text \<open>
  A JavaScript \<^verbatim>\<open>number\<close> is modelled as a real number or \<^verbatim>\<open>NaN\<close>.  Arithmetic on
  finite values is exact: rounding to 64-bit floats, overflow and the two infinities
  are not represented.  \<^verbatim>\<open>NaN\<close> is kept because the program tests for it
  (\<^verbatim>\<open>isNaN\<close>), compares with it (\<^verbatim>\<open>!==\<close>, \<^verbatim>\<open><\<close>) and produces it whenever it reads a
  typed array out of range (\<^verbatim>\<open>undefined\<close> in arithmetic).  A property below that names a
  computed number (an index \<open>d * row + col\<close>, a length \<open>n * d\<close>, a scaled channel) is stated
  of that number as the program computes it.
\<close>

datatype number = NaN | Fin real

instantiation number :: "{zero, one, plus, times, uminus, minus, inverse}"
begin

definition zero_number :: number where
  "zero_number = Fin 0"

definition one_number :: number where
  "one_number = Fin 1"

definition plus_number :: "number \<Rightarrow> number \<Rightarrow> number" where
  "plus_number a b = (case a of NaN \<Rightarrow> NaN | Fin x \<Rightarrow> (case b of NaN \<Rightarrow> NaN | Fin y \<Rightarrow> Fin (x + y)))"

definition times_number :: "number \<Rightarrow> number \<Rightarrow> number" where
  "times_number a b = (case a of NaN \<Rightarrow> NaN | Fin x \<Rightarrow> (case b of NaN \<Rightarrow> NaN | Fin y \<Rightarrow> Fin (x * y)))"

definition uminus_number :: "number \<Rightarrow> number" where
  "uminus_number a = (case a of NaN \<Rightarrow> NaN | Fin x \<Rightarrow> Fin (- x))"

definition minus_number :: "number \<Rightarrow> number \<Rightarrow> number" where
  "minus_number a b = (case a of NaN \<Rightarrow> NaN | Fin x \<Rightarrow> (case b of NaN \<Rightarrow> NaN | Fin y \<Rightarrow> Fin (x - y)))"

text \<open>
  Division by zero gives an infinity (or \<^verbatim>\<open>NaN\<close> for \<^verbatim>\<open>0/0\<close>) in JavaScript.  The model has no
  infinities and answers \<^verbatim>\<open>NaN\<close> there; no division of the program has a zero divisor on
  the inputs the theorems below are about.
\<close>

definition divide_number :: "number \<Rightarrow> number \<Rightarrow> number" where
  "divide_number a b =
     (case a of NaN \<Rightarrow> NaN
      | Fin x \<Rightarrow> (case b of NaN \<Rightarrow> NaN | Fin y \<Rightarrow> if y = 0 then NaN else Fin (x / y)))"

definition inverse_number :: "number \<Rightarrow> number" where
  "inverse_number a = (case a of NaN \<Rightarrow> NaN | Fin y \<Rightarrow> if y = 0 then NaN else Fin (1 / y))"

instance ..

end

instance number :: comm_monoid_add
proof
  fix a b c :: number
  show "a + b + c = a + (b + c)"
    by (simp add: plus_number_def split: number.splits)
  show "a + b = b + a"
    by (simp add: plus_number_def split: number.splits)
  show "0 + a = a"
    by (simp add: plus_number_def zero_number_def split: number.splits)
qed

text \<open>The comparison operators: every comparison with \<^verbatim>\<open>NaN\<close> is false, and \<^verbatim>\<open>!==\<close> is true.\<close>

fun js_lt :: "number \<Rightarrow> number \<Rightarrow> bool" where
  "js_lt (Fin x) (Fin y) = (x < y)"
| "js_lt _ _ = False"

fun js_gt :: "number \<Rightarrow> number \<Rightarrow> bool" where
  "js_gt (Fin x) (Fin y) = (x > y)"
| "js_gt _ _ = False"

fun js_ge :: "number \<Rightarrow> number \<Rightarrow> bool" where
  "js_ge (Fin x) (Fin y) = (x \<ge> y)"
| "js_ge _ _ = False"

fun js_sne :: "number \<Rightarrow> number \<Rightarrow> bool" where
  "js_sne (Fin x) (Fin y) = (x \<noteq> y)"
| "js_sne _ _ = True"

fun isNaN :: "number \<Rightarrow> bool" where
  "isNaN NaN = True"
| "isNaN (Fin x) = False"

text \<open>\<^verbatim>\<open>a || b\<close> on numbers: \<^verbatim>\<open>0\<close> and \<^verbatim>\<open>NaN\<close> are the falsy numbers.\<close>

fun falsy :: "number \<Rightarrow> bool" where
  "falsy NaN = True"
| "falsy (Fin x) = (x = 0)"

definition js_or :: "number \<Rightarrow> number \<Rightarrow> number" where
  "js_or a b = (if falsy a then b else a)"

text \<open>\<^verbatim>\<open>Math.min\<close> and \<^verbatim>\<open>Math.max\<close> return \<^verbatim>\<open>NaN\<close> as soon as one argument is \<^verbatim>\<open>NaN\<close>.\<close>

fun Math_min :: "number \<Rightarrow> number \<Rightarrow> number" where
  "Math_min (Fin x) (Fin y) = Fin (min x y)"
| "Math_min _ _ = NaN"

fun Math_max :: "number \<Rightarrow> number \<Rightarrow> number" where
  "Math_max (Fin x) (Fin y) = Fin (max x y)"
| "Math_max _ _ = NaN"

fun Math_tanh :: "number \<Rightarrow> number" where
  "Math_tanh NaN = NaN"
| "Math_tanh (Fin x) = Fin (tanh x)"

fun Math_exp :: "number \<Rightarrow> number" where
  "Math_exp NaN = NaN"
| "Math_exp (Fin x) = Fin (exp x)"

text \<open>
  Typed arrays (\<^verbatim>\<open>Float64Array\<close>, \<^verbatim>\<open>Uint8ClampedArray\<close>) are lists of fixed length.  A key is an
  element index when it is a non-negative integer below the length.  Reading at any
  other key gives \<^verbatim>\<open>undefined\<close> (\<open>None\<close>), writing there is ignored; neither raises.
\<close>

definition array_index :: "number \<Rightarrow> nat \<Rightarrow> nat option" where
  "array_index ix len =
     (case ix of
        NaN \<Rightarrow> None
      | Fin r \<Rightarrow> if 0 \<le> r \<and> r = of_int \<lfloor>r\<rfloor> \<and> nat \<lfloor>r\<rfloor> < len then Some (nat \<lfloor>r\<rfloor>) else None)"

definition array_get :: "'a list \<Rightarrow> number \<Rightarrow> 'a option" where
  "array_get xs ix = (case array_index ix (length xs) of None \<Rightarrow> None | Some i \<Rightarrow> Some (xs ! i))"

definition array_set :: "'a list \<Rightarrow> number \<Rightarrow> 'a \<Rightarrow> 'a list" where
  "array_set xs ix v = (case array_index ix (length xs) of None \<Rightarrow> xs | Some i \<Rightarrow> xs[i := v])"

text \<open>\<^verbatim>\<open>undefined\<close> used as an operand of arithmetic or of a \<^verbatim>\<open>Math\<close> function is \<^verbatim>\<open>NaN\<close>.\<close>

fun to_number :: "number option \<Rightarrow> number" where
  "to_number None = NaN"
| "to_number (Some v) = v"

datatype error = RangeError | DimensionError | IndexError | TypeError

text \<open>
  \<^verbatim>\<open>new Float64Array(len)\<close> converts its argument to a length (ECMAScript \<^verbatim>\<open>ToIndex\<close>):
  the number is truncated towards zero (\<^verbatim>\<open>NaN\<close> counts as 0), a negative result is a
  \<^verbatim>\<open>RangeError\<close>, and the array is filled with zeros.  The largest length that the engine
  builds is left out here; it is the parameter of \<open>ToIndex_upto\<close> below.
\<close>

definition ToIndex :: "number \<Rightarrow> error + nat" where
  "ToIndex v =
     (case v of
        NaN \<Rightarrow> Inr 0
      | Fin r \<Rightarrow> (let t = (if 0 \<le> r then \<lfloor>r\<rfloor> else \<lceil>r\<rceil>)
                 in if t < 0 then Inl RangeError else Inr (nat t)))"

definition Float64Array_new :: "number \<Rightarrow> error + number list" where
  "Float64Array_new len =
     (case ToIndex len of Inl e \<Rightarrow> Inl e | Inr k \<Rightarrow> Inr (replicate k (Fin 0)))"

text \<open>
  \<^verbatim>\<open>for (let i = 0; i < bound; i++) body\<close>, started at any \<open>i\<close>.  The counter takes the
  values 0, 1, 2, ... and the bound is a number: the loop is left at once when the bound
  is \<^verbatim>\<open>NaN\<close>.  \<open>iters bound\<close> counts the naturals below the bound.
\<close>

definition iters :: "number \<Rightarrow> nat" where
  "iters bound = (case bound of NaN \<Rightarrow> 0 | Fin r \<Rightarrow> nat \<lceil>r\<rceil>)"

function for_loop :: "nat \<Rightarrow> number \<Rightarrow> (nat \<Rightarrow> 's \<Rightarrow> 's) \<Rightarrow> 's \<Rightarrow> 's" where
  "for_loop i bound body s =
     (if js_lt (Fin (real i)) bound then for_loop (Suc i) bound body (body i s) else s)"
  by pat_completeness auto
termination
proof (relation "measure (\<lambda>(i, bound, body, s). iters bound - i)")
  fix i :: nat and bound :: number and body :: "nat \<Rightarrow> 's \<Rightarrow> 's" and s :: 's
  assume "js_lt (Fin (real i)) bound"
  then obtain r where b: "bound = Fin r" and lt: "real i < r"
    by (cases bound) auto
  from lt have "real i < of_int \<lceil>r\<rceil>"
    by linarith
  then have "i < nat \<lceil>r\<rceil>"
    by linarith
  then show "((Suc i, bound, body, body i s), (i, bound, body, s))
      \<in> measure (\<lambda>(i, bound, body, s). iters bound - i)"
    by (simp add: iters_def b)
qed simp

text \<open>The same loop with a body that may raise: the first error leaves the loop.\<close>

function for_loopE ::
  "nat \<Rightarrow> number \<Rightarrow> (nat \<Rightarrow> 's \<Rightarrow> error + 's) \<Rightarrow> 's \<Rightarrow> error + 's" where
  "for_loopE i bound body s =
     (if js_lt (Fin (real i)) bound
      then (case body i s of Inl e \<Rightarrow> Inl e | Inr s' \<Rightarrow> for_loopE (Suc i) bound body s')
      else Inr s)"
  by pat_completeness auto
termination
proof (relation "measure (\<lambda>(i, bound, body, s). iters bound - i)")
  fix i :: nat and bound :: number and body :: "nat \<Rightarrow> 's \<Rightarrow> error + 's" and s s' :: 's
  assume "js_lt (Fin (real i)) bound"
  then obtain r where b: "bound = Fin r" and lt: "real i < r"
    by (cases bound) auto
  from lt have "real i < of_int \<lceil>r\<rceil>"
    by linarith
  then have "i < nat \<lceil>r\<rceil>"
    by linarith
  then show "((Suc i, bound, body, s'), (i, bound, body, s))
      \<in> measure (\<lambda>(i, bound, body, s). iters bound - i)"
    by (simp add: iters_def b)
qed simp

text \<open>
  Results.  A function that may raise returns \<open>error + 'a\<close>.  A function that draws from
  the random source and may loop forever returns \<open>(error + 'a) option\<close>: \<open>None\<close> when it
  does not return, \<open>Some (Inl e)\<close> when it raises, \<open>Some (Inr v)\<close> when it returns \<open>v\<close>.
\<close>

definition bindE :: "error + 'a \<Rightarrow> ('a \<Rightarrow> error + 'b) \<Rightarrow> error + 'b" where
  "bindE m f = (case m of Inl e \<Rightarrow> Inl e | Inr v \<Rightarrow> f v)"

definition bindR :: "(error + 'a) option \<Rightarrow> ('a \<Rightarrow> (error + 'b) option) \<Rightarrow> (error + 'b) option" where
  "bindR m f = (case m of None \<Rightarrow> None | Some (Inl e) \<Rightarrow> Some (Inl e) | Some (Inr v) \<Rightarrow> f v)"

function for_loopR ::
  "nat \<Rightarrow> number \<Rightarrow> (nat \<Rightarrow> 's \<Rightarrow> (error + 's) option) \<Rightarrow> 's \<Rightarrow> (error + 's) option" where
  "for_loopR i bound body s =
     (if js_lt (Fin (real i)) bound
      then (case body i s of
              None \<Rightarrow> None
            | Some (Inl e) \<Rightarrow> Some (Inl e)
            | Some (Inr s') \<Rightarrow> for_loopR (Suc i) bound body s')
      else Some (Inr s))"
  by pat_completeness auto
termination
proof (relation "measure (\<lambda>(i, bound, body, s). iters bound - i)")
  fix i :: nat and bound :: number and body :: "nat \<Rightarrow> 's \<Rightarrow> (error + 's) option" and s s' :: 's
  assume "js_lt (Fin (real i)) bound"
  then obtain r where b: "bound = Fin r" and lt: "real i < r"
    by (cases bound) auto
  from lt have "real i < of_int \<lceil>r\<rceil>"
    by linarith
  then have "i < nat \<lceil>r\<rceil>"
    by linarith
  then show "((Suc i, bound, body, s'), (i, bound, body, s))
      \<in> measure (\<lambda>(i, bound, body, s). iters bound - i)"
    by (simp add: iters_def b)
qed simp

section \<open>The matrix class\<close>

record Matrix =
  n :: number
  d :: number
  w :: "number list"

text \<open>\<^verbatim>\<open>zeros(num)\<close>: an empty array for \<^verbatim>\<open>NaN\<close>, else \<^verbatim>\<open>new Float64Array(num)\<close>.\<close>

definition zeros :: "number \<Rightarrow> error + number list" where
  "zeros num = (if isNaN num then Inr [] else Float64Array_new num)"

text \<open>The constructor \<^verbatim>\<open>new Matrix(n, d)\<close>.\<close>

definition Matrix_new :: "number \<Rightarrow> number \<Rightarrow> error + Matrix" where
  "Matrix_new rows cols =
     (case zeros (rows * cols) of
        Inl e \<Rightarrow> Inl e
      | Inr buf \<Rightarrow> Inr \<lparr>n = rows, d = cols, w = buf\<rparr>)"

text \<open>
  An engine builds typed arrays up to a largest length only: \<^verbatim>\<open>ToIndex\<close> raises a
  \<^verbatim>\<open>RangeError\<close> above \<open>2^53 - 1\<close>, and the allocation itself fails with a \<^verbatim>\<open>RangeError\<close> at a
  smaller length, which depends on the engine.  \<open>ToIndex_upto L\<close>, \<open>Float64Array_upto L\<close>,
  \<open>zeros_upto L\<close> and \<open>Matrix_upto L\<close> are the conversion, the allocation, \<^verbatim>\<open>zeros\<close> and the
  constructor on an engine whose largest array length is \<open>L\<close>.  The functions \<open>ToIndex\<close>,
  \<open>Float64Array_new\<close>, \<open>zeros\<close> and \<open>Matrix_new\<close> above, on which the rest of the program is
  built, are those of an engine without such a limit.
\<close>

definition ToIndex_upto :: "nat \<Rightarrow> number \<Rightarrow> error + nat" where
  "ToIndex_upto L v =
     (case ToIndex v of Inl e \<Rightarrow> Inl e | Inr k \<Rightarrow> if L < k then Inl RangeError else Inr k)"

definition Float64Array_upto :: "nat \<Rightarrow> number \<Rightarrow> error + number list" where
  "Float64Array_upto L len =
     (case ToIndex_upto L len of Inl e \<Rightarrow> Inl e | Inr k \<Rightarrow> Inr (replicate k (Fin 0)))"

definition zeros_upto :: "nat \<Rightarrow> number \<Rightarrow> error + number list" where
  "zeros_upto L num = (if isNaN num then Inr [] else Float64Array_upto L num)"

definition Matrix_upto :: "nat \<Rightarrow> number \<Rightarrow> number \<Rightarrow> error + Matrix" where
  "Matrix_upto L rows cols =
     (case zeros_upto L (rows * cols) of
        Inl e \<Rightarrow> Inl e
      | Inr buf \<Rightarrow> Inr \<lparr>n = rows, d = cols, w = buf\<rparr>)"

text \<open>
  \<^verbatim>\<open>get(row, col)\<close> returns the element or \<^verbatim>\<open>undefined\<close> (\<open>None\<close>); \<^verbatim>\<open>set(row, col, value)\<close>
  returns the matrix after the write.
\<close>

definition get :: "Matrix \<Rightarrow> number \<Rightarrow> number \<Rightarrow> error + number option" where
  "get m row col =
     (let ix = d m * row + col
      in if js_ge ix (Fin 0) \<and> js_gt ix (Fin (real (length (w m))))
         then Inl IndexError
         else Inr (array_get (w m) ix))"

definition set_m :: "Matrix \<Rightarrow> number \<Rightarrow> number \<Rightarrow> number \<Rightarrow> error + Matrix" where
  "set_m m row col v =
     (let ix = d m * row + col
      in if js_ge ix (Fin 0) \<and> js_gt ix (Fin (real (length (w m))))
         then Inl IndexError
         else Inr (m\<lparr>w := array_set (w m) ix v\<rparr>))"

section \<open>Activation functions and the matrix product\<close>

definition tanh_m :: "Matrix \<Rightarrow> error + Matrix" where
  "tanh_m matrix =
     bindE (Matrix_new (n matrix) (d matrix)) (\<lambda>out.
       Inr (for_loop 0 (Fin (real (length (w matrix))))
              (\<lambda>i out. out\<lparr>w := array_set (w out) (Fin (real i))
                                   (Math_tanh (to_number (array_get (w matrix) (Fin (real i)))))\<rparr>)
              out))"

text \<open>
  \<^verbatim>\<open>sig(x)\<close> is \<open>1 / (1 + exp (- x))\<close>.  On exact reals this value lies strictly between
  0 and 1; in 64-bit floats it is rounded, and it is exactly 1 as soon as \<open>exp (- x)\<close> is
  below \<open>2^-53\<close>, from \<open>x\<close> about 36.8 on.  The properties below state of the values of
  the output layer only that they lie in the closed interval \<open>[0, 1]\<close>.
\<close>

definition sig :: "number \<Rightarrow> number" where
  "sig x = Fin 1 / (Fin 1 + Math_exp (- x))"

definition sigmoid :: "Matrix \<Rightarrow> error + Matrix" where
  "sigmoid matrix =
     bindE (Matrix_new (n matrix) (d matrix)) (\<lambda>out.
       Inr (for_loop 0 (Fin (real (length (w matrix))))
              (\<lambda>i out. out\<lparr>w := array_set (w out) (Fin (real i))
                                   (sig (to_number (array_get (w matrix) (Fin (real i)))))\<rparr>)
              out))"

text \<open>
  The innermost loop of \<^verbatim>\<open>matrixMul\<close>: \<^verbatim>\<open>dot += m1.w[m1d * i + k] * m2.w[m2d * k + j]\<close> for
  \<open>k\<close> below \<open>m1d\<close>, from \<open>dot = 0.0\<close>.
\<close>

definition dot_loop :: "Matrix \<Rightarrow> Matrix \<Rightarrow> nat \<Rightarrow> nat \<Rightarrow> number" where
  "dot_loop m1 m2 i j =
     (let m1d = d m1; m2d = d m2
      in for_loop 0 m1d
           (\<lambda>k dot. dot + to_number (array_get (w m1) (m1d * Fin (real i) + Fin (real k)))
                          * to_number (array_get (w m2) (m2d * Fin (real k) + Fin (real j))))
           (Fin 0))"

definition matrixMul :: "Matrix \<Rightarrow> Matrix \<Rightarrow> error + Matrix" where
  "matrixMul m1 m2 =
     (if js_sne (d m1) (n m2) then Inl DimensionError
      else
        (let rows = n m1; cols = d m2
         in bindE (Matrix_new rows cols) (\<lambda>out.
              Inr (for_loop 0 rows
                     (\<lambda>i out. for_loop 0 cols
                        (\<lambda>j out. out\<lparr>w := array_set (w out) (cols * Fin (real i) + Fin (real j))
                                             (dot_loop m1 m2 i j)\<rparr>)
                        out)
                     out))))"

section \<open>Random weights\<close>

text \<open>
  The global random source is an infinite tape of draws, each meant to lie in \<open>[0, 1)\<close>;
  \<^verbatim>\<open>Math.random()\<close> takes the first draw and leaves the rest.
\<close>

type_synonym rng = "nat \<Rightarrow> real"

definition Math_random :: "rng \<Rightarrow> real \<times> rng" where
  "Math_random g = (g 0, \<lambda>i. g (Suc i))"

text \<open>The rejection loop of \<^verbatim>\<open>generateGaussianRandom\<close> has no bound on its iterations.\<close>

partial_function (option) generateGaussianRandom :: "rng \<Rightarrow> (real \<times> rng) option" where
  "generateGaussianRandom g =
     (case Math_random g of (a, g1) \<Rightarrow>
      case Math_random g1 of (b, g2) \<Rightarrow>
        let u = 2 * a - 1;
            v = 2 * b - 1;
            r = u * u + v * v
        in if r = 0 \<or> r > 1 then generateGaussianRandom g2
           else Some (u * sqrt ((- 2 * ln r) / r), g2))"

definition generateRandomNormal :: "number \<Rightarrow> number \<Rightarrow> rng \<Rightarrow> (number \<times> rng) option" where
  "generateRandomNormal mean standardDeviation g =
     (case generateGaussianRandom g of
        None \<Rightarrow> None
      | Some (z, g') \<Rightarrow> Some (mean + Fin z * standardDeviation, g'))"

definition fillRandn :: "Matrix \<Rightarrow> number \<Rightarrow> number \<Rightarrow> rng \<Rightarrow> (error + Matrix \<times> rng) option" where
  "fillRandn matrix mean standardDeviation g =
     for_loopR 0 (Fin (real (length (w matrix))))
       (\<lambda>i (matrix, g).
          case generateRandomNormal mean standardDeviation g of
            None \<Rightarrow> None
          | Some (v, g') \<Rightarrow> Some (Inr (matrix\<lparr>w := array_set (w matrix) (Fin (real i)) v\<rparr>, g')))
       (matrix, g)"

definition RandMat ::
  "number \<Rightarrow> number \<Rightarrow> number \<Rightarrow> number \<Rightarrow> rng \<Rightarrow> (error + Matrix \<times> rng) option" where
  "RandMat rows columns mean standardDeviation g =
     (case Matrix_new rows columns of
        Inl e \<Rightarrow> Some (Inl e)
      | Inr matrix \<Rightarrow>
          fillRandn matrix (js_or mean (Fin 0)) (js_or standardDeviation (Fin (8 / 100))) g)"

section \<open>The model and the forward pass\<close>

record Config =
  width :: number
  height :: number
  input :: number
  hidden :: number
  maxR :: number
  maxG :: number
  maxB :: number

text \<open>
  The model object: its two required members, and the member \<^verbatim>\<open>w_i\<close> for the layer index
  \<open>i\<close> as the entry \<open>i\<close> of \<open>w_hidden\<close>.
\<close>

record Model =
  w_in :: Matrix
  w_out :: Matrix
  w_hidden :: "nat \<rightharpoonup> Matrix"

definition createModel :: "Config \<Rightarrow> rng \<Rightarrow> (error + Model \<times> rng) option" where
  "createModel config g =
     (let weightInitRange = Fin (8 / 10)
      in bindR (RandMat (input config) (Fin 3) (Fin 0) weightInitRange g) (\<lambda>(win, g1).
         bindR (RandMat (Fin 3) (input config) (Fin 0) weightInitRange g1) (\<lambda>(wout, g2).
         for_loopR 0 (hidden config)
           (\<lambda>layerIndex (model, g).
              bindR (RandMat (input config) (input config) (Fin 0) weightInitRange g) (\<lambda>(m, g').
                Some (Inr (model\<lparr>w_hidden := (w_hidden model)(layerIndex \<mapsto> m)\<rparr>, g'))))
           (\<lparr>w_in = win, w_out = wout, w_hidden = Map.empty\<rparr>, g2))))"

text \<open>A missing member \<^verbatim>\<open>w_i\<close> is \<^verbatim>\<open>undefined\<close>, and \<^verbatim>\<open>matrixMul\<close> raises a \<^verbatim>\<open>TypeError\<close> on it.\<close>

definition forwardNetwork :: "Config \<Rightarrow> Model \<Rightarrow> number \<Rightarrow> number \<Rightarrow> error + Matrix" where
  "forwardNetwork config model x' y' =
     bindE (Matrix_new (Fin 3) (Fin 1)) (\<lambda>x.
     bindE (set_m x (Fin 0) (Fin 0) x') (\<lambda>x.
     bindE (set_m x (Fin 1) (Fin 0) y') (\<lambda>x.
     bindE (set_m x (Fin 2) (Fin 0) (Fin 1)) (\<lambda>x.
     bindE (bindE (matrixMul (w_in model) x) tanh_m) (\<lambda>out.
     bindE (for_loopE 0 (hidden config)
              (\<lambda>i out. case w_hidden model i of
                          None \<Rightarrow> Inl TypeError
                        | Some wi \<Rightarrow> bindE (matrixMul wi out) tanh_m)
              out) (\<lambda>out.
     bindE (matrixMul (w_out model) out) sigmoid))))))"

section \<open>The forward pass with the random source passed through\<close>

text \<open>
  The random source of JavaScript is global: every function can draw from it.  Here
  are the functions of the program that the forward pass calls, and the forward pass
  itself, once more, each with the random source as a further argument that it returns
  with its result; a function that raises returns the error alone.  They follow the
  source statement by statement, as the definitions above do.
\<close>

definition zeros_st :: "number \<Rightarrow> rng \<Rightarrow> error + number list \<times> rng" where
  "zeros_st num g =
     (if isNaN num then Inr ([], g) else bindE (Float64Array_new num) (\<lambda>buf. Inr (buf, g)))"

definition Matrix_new_st :: "number \<Rightarrow> number \<Rightarrow> rng \<Rightarrow> error + Matrix \<times> rng" where
  "Matrix_new_st rows cols g =
     bindE (zeros_st (rows * cols) g) (\<lambda>(buf, g). Inr (\<lparr>n = rows, d = cols, w = buf\<rparr>, g))"

definition set_m_st ::
  "Matrix \<Rightarrow> number \<Rightarrow> number \<Rightarrow> number \<Rightarrow> rng \<Rightarrow> error + Matrix \<times> rng" where
  "set_m_st m row col v g =
     (let ix = d m * row + col
      in if js_ge ix (Fin 0) \<and> js_gt ix (Fin (real (length (w m))))
         then Inl IndexError
         else Inr (m\<lparr>w := array_set (w m) ix v\<rparr>, g))"

definition tanh_m_st :: "Matrix \<Rightarrow> rng \<Rightarrow> error + Matrix \<times> rng" where
  "tanh_m_st matrix g =
     bindE (Matrix_new_st (n matrix) (d matrix) g) (\<lambda>(out, g).
       Inr (for_loop 0 (Fin (real (length (w matrix))))
              (\<lambda>i (out, g).
                 (out\<lparr>w := array_set (w out) (Fin (real i))
                                (Math_tanh (to_number (array_get (w matrix) (Fin (real i)))))\<rparr>, g))
              (out, g)))"

definition sig_st :: "number \<Rightarrow> rng \<Rightarrow> number \<times> rng" where
  "sig_st x g = (Fin 1 / (Fin 1 + Math_exp (- x)), g)"

definition sigmoid_st :: "Matrix \<Rightarrow> rng \<Rightarrow> error + Matrix \<times> rng" where
  "sigmoid_st matrix g =
     bindE (Matrix_new_st (n matrix) (d matrix) g) (\<lambda>(out, g).
       Inr (for_loop 0 (Fin (real (length (w matrix))))
              (\<lambda>i (out, g).
                 case sig_st (to_number (array_get (w matrix) (Fin (real i)))) g of
                   (v, g') \<Rightarrow> (out\<lparr>w := array_set (w out) (Fin (real i)) v\<rparr>, g'))
              (out, g)))"

definition matrixMul_st :: "Matrix \<Rightarrow> Matrix \<Rightarrow> rng \<Rightarrow> error + Matrix \<times> rng" where
  "matrixMul_st m1 m2 g =
     (if js_sne (d m1) (n m2) then Inl DimensionError
      else
        (let rows = n m1; cols = d m2
         in bindE (Matrix_new_st rows cols g) (\<lambda>(out, g).
              let m1d = d m1; m2d = d m2
              in Inr (for_loop 0 rows
                     (\<lambda>i (out, g). for_loop 0 cols
                        (\<lambda>j (out, g).
                           case for_loop 0 m1d
                                  (\<lambda>k (dot, g).
                                     (dot + to_number (array_get (w m1) (m1d * Fin (real i) + Fin (real k)))
                                            * to_number (array_get (w m2) (m2d * Fin (real k) + Fin (real j))),
                                      g))
                                  (Fin 0, g) of
                             (dot, g') \<Rightarrow>
                               (out\<lparr>w := array_set (w out) (cols * Fin (real i) + Fin (real j)) dot\<rparr>, g'))
                        (out, g))
                     (out, g)))))"

definition forwardNetwork_st ::
  "Config \<Rightarrow> Model \<Rightarrow> number \<Rightarrow> number \<Rightarrow> rng \<Rightarrow> error + Matrix \<times> rng" where
  "forwardNetwork_st config model x' y' g =
     bindE (Matrix_new_st (Fin 3) (Fin 1) g) (\<lambda>(x, g).
     bindE (set_m_st x (Fin 0) (Fin 0) x' g) (\<lambda>(x, g).
     bindE (set_m_st x (Fin 1) (Fin 0) y' g) (\<lambda>(x, g).
     bindE (set_m_st x (Fin 2) (Fin 0) (Fin 1) g) (\<lambda>(x, g).
     bindE (bindE (matrixMul_st (w_in model) x g) (\<lambda>(m, g). tanh_m_st m g)) (\<lambda>(out, g).
     bindE (for_loopE 0 (hidden config)
              (\<lambda>i (out, g). case w_hidden model i of
                          None \<Rightarrow> Inl TypeError
                        | Some wi \<Rightarrow> bindE (matrixMul_st wi out g) (\<lambda>(m, g). tanh_m_st m g))
              (out, g)) (\<lambda>(out, g).
     bindE (matrixMul_st (w_out model) out g) (\<lambda>(m, g). sigmoid_st m g)))))))"

section \<open>Colours and the image\<close>

text \<open>\<^verbatim>\<open>noise()\<close>: one draw, scaled to \<^verbatim>\<open>(Math.random() * 2 - 1) * noiseRange\<close>.\<close>

definition noise :: "rng \<Rightarrow> number \<times> rng" where
  "noise g = (case Math_random g of (a, g') \<Rightarrow> ((Fin a * Fin 2 - Fin 1) * Fin (3 / 100), g'))"

text \<open>The returned array \<^verbatim>\<open>[r, g, b, a]\<close> is a quadruple.\<close>

definition getColorAt ::
  "Config \<Rightarrow> Model \<Rightarrow> number \<Rightarrow> number \<Rightarrow> rng
     \<Rightarrow> error + (number \<times> number \<times> number \<times> number) \<times> rng" where
  "getColorAt config model x y g0 =
     bindE (forwardNetwork config model x y) (\<lambda>out.
       case noise g0 of (n1, g1) \<Rightarrow>
       let r = (to_number (array_get (w out) (Fin 0)) + n1) * maxR config in
       case noise g1 of (n2, g2) \<Rightarrow>
       let g = (to_number (array_get (w out) (Fin 1)) + n2) * maxG config in
       case noise g2 of (n3, g3) \<Rightarrow>
       let b = (to_number (array_get (w out) (Fin 2)) + n3) * maxB config;
           a = Fin 255
       in Inr ((Math_min (Fin 255) (Math_max (Fin 0) r),
                Math_min (Fin 255) (Math_max (Fin 0) g),
                Math_min (Fin 255) (Math_max (Fin 0) b),
                a), g3))"

text \<open>
  \<^verbatim>\<open>getColorAt\<close> once more, on the forward pass that passes the random source through:
  the noise is drawn from the random source that the forward pass leaves.
\<close>

definition getColorAt_st ::
  "Config \<Rightarrow> Model \<Rightarrow> number \<Rightarrow> number \<Rightarrow> rng
     \<Rightarrow> error + (number \<times> number \<times> number \<times> number) \<times> rng" where
  "getColorAt_st config model x y g0 =
     bindE (forwardNetwork_st config model x y g0) (\<lambda>(out, g0).
       case noise g0 of (n1, g1) \<Rightarrow>
       let r = (to_number (array_get (w out) (Fin 0)) + n1) * maxR config in
       case noise g1 of (n2, g2) \<Rightarrow>
       let g = (to_number (array_get (w out) (Fin 1)) + n2) * maxG config in
       case noise g2 of (n3, g3) \<Rightarrow>
       let b = (to_number (array_get (w out) (Fin 2)) + n3) * maxB config;
           a = Fin 255
       in Inr ((Math_min (Fin 255) (Math_max (Fin 0) r),
                Math_min (Fin 255) (Math_max (Fin 0) g),
                Math_min (Fin 255) (Math_max (Fin 0) b),
                a), g3))"

text \<open>
  A \<^verbatim>\<open>Uint8ClampedArray\<close> holds bytes.  A number stored in it is clamped to \<open>[0, 255]\<close> and
  rounded to the nearest integer, ties to even; \<^verbatim>\<open>NaN\<close> is stored as 0.
\<close>

definition ToUint8Clamp :: "number \<Rightarrow> nat" where
  "ToUint8Clamp v =
     (case v of
        NaN \<Rightarrow> 0
      | Fin r \<Rightarrow>
          if r \<le> 0 then 0
          else if 255 \<le> r then 255
          else (let f = \<lfloor>r\<rfloor>
                in if of_int f + 1 / 2 < r then nat (f + 1)
                   else if r < of_int f + 1 / 2 then nat f
                   else if even f then nat f else nat (f + 1)))"

definition Uint8ClampedArray_new :: "number \<Rightarrow> error + nat list" where
  "Uint8ClampedArray_new len =
     (case ToIndex len of Inl e \<Rightarrow> Inl e | Inr k \<Rightarrow> Inr (replicate k 0))"

definition write_pixel ::
  "nat list \<Rightarrow> number \<Rightarrow> number \<times> number \<times> number \<times> number \<Rightarrow> nat list" where
  "write_pixel pixels idx c =
     (case c of (r, g, b, a) \<Rightarrow>
        array_set
          (array_set
             (array_set
                (array_set pixels idx (ToUint8Clamp r))
                (idx + Fin 1) (ToUint8Clamp g))
             (idx + Fin 2) (ToUint8Clamp b))
          (idx + Fin 3) (ToUint8Clamp a))"

definition getImageData :: "Config \<Rightarrow> rng \<Rightarrow> (error + nat list \<times> rng) option" where
  "getImageData config g =
     bindR (createModel config g) (\<lambda>(model, g1).
       Some (bindE (Uint8ClampedArray_new (width config * height config * Fin 4)) (\<lambda>pixels.
         for_loopE 0 (height config)
           (\<lambda>y (pixels, g).
              for_loopE 0 (width config)
                (\<lambda>x (pixels, g).
                   bindE (getColorAt config model
                            (Fin (real x) / width config) (Fin (real y) / height config) g)
                     (\<lambda>(c, g').
                        let idx = (Fin (real y) * width config + Fin (real x)) * Fin 4
                        in Inr (write_pixel pixels idx c, g')))
                (pixels, g))
           (pixels, g1))))"

section \<open>Auxiliary definitions for the proofs\<close>

text \<open>
  \<open>result r\<close> is the result of a run that passes the random source through, without
  the random source; \<open>kept g r\<close> is a result \<open>r\<close> together with the random source \<open>g\<close>.
\<close>

definition result :: "error + 'a \<times> rng \<Rightarrow> error + 'a" where
  "result r = (case r of Inl e \<Rightarrow> Inl e | Inr (v, g) \<Rightarrow> Inr v)"

definition kept :: "rng \<Rightarrow> error + 'a \<Rightarrow> error + 'a \<times> rng" where
  "kept g r = (case r of Inl e \<Rightarrow> Inl e | Inr v \<Rightarrow> Inr (v, g))"

text \<open>
  Folds with an error or a non-returning step over a list of indices: the loops above
  are such folds over \<open>[i..<iters bound]\<close>.
\<close>

fun foldE :: "('a \<Rightarrow> 's \<Rightarrow> error + 's) \<Rightarrow> 'a list \<Rightarrow> 's \<Rightarrow> error + 's" where
  "foldE f [] s = Inr s"
| "foldE f (x # xs) s = (case f x s of Inl e \<Rightarrow> Inl e | Inr s' \<Rightarrow> foldE f xs s')"

fun foldR :: "('a \<Rightarrow> 's \<Rightarrow> (error + 's) option) \<Rightarrow> 'a list \<Rightarrow> 's \<Rightarrow> (error + 's) option" where
  "foldR f [] s = Some (Inr s)"
| "foldR f (x # xs) s =
     (case f x s of None \<Rightarrow> None | Some (Inl e) \<Rightarrow> Some (Inl e) | Some (Inr s') \<Rightarrow> foldR f xs s')"

text \<open>
  A matrix of \<open>r\<close> rows and \<open>c\<close> columns, \<open>r\<close> and \<open>c\<close> natural numbers, with a buffer of
  \<open>r * c\<close> elements.
\<close>

definition shaped :: "Matrix \<Rightarrow> nat \<Rightarrow> nat \<Rightarrow> bool" where
  "shaped m r c \<longleftrightarrow> n m = Fin (real r) \<and> d m = Fin (real c) \<and> length (w m) = r * c"

text \<open>The dot product, and the rows and columns of a matrix stored row by row.\<close>

definition dot_product :: "number list \<Rightarrow> number list \<Rightarrow> number" where
  "dot_product xs ys = sum_list (map2 (*) xs ys)"

definition row_of :: "Matrix \<Rightarrow> nat \<Rightarrow> nat \<Rightarrow> number list" where
  "row_of m c i = map (\<lambda>k. w m ! (c * i + k)) [0..<c]"

definition col_of :: "Matrix \<Rightarrow> nat \<Rightarrow> nat \<Rightarrow> nat \<Rightarrow> number list" where
  "col_of m r c j = map (\<lambda>k. w m ! (c * k + j)) [0..<r]"

text \<open>
  The forward pass in the words of the specification: the product of a matrix with a
  vector, a layer (the product followed by the activation on every entry), and the
  layers in their order: \<open>tanh\<close> of the input matrix on \<open>(x, y, 1)\<close>, \<open>tanh\<close> of the hidden
  matrices \<open>0, 1, ...\<close> below \<open>hidden\<close>, the sigmoid of the output matrix.
\<close>

definition mat_vec :: "Matrix \<Rightarrow> number list \<Rightarrow> number list" where
  "mat_vec m v = map (\<lambda>i. dot_product (row_of m (length v) i) v) [0..<iters (n m)]"

definition layer :: "(number \<Rightarrow> number) \<Rightarrow> Matrix \<Rightarrow> number list \<Rightarrow> number list" where
  "layer act m v = map act (mat_vec m v)"

definition forward_spec :: "Config \<Rightarrow> Model \<Rightarrow> number \<Rightarrow> number \<Rightarrow> number list" where
  "forward_spec config model x y =
     layer sig (w_out model)
       (fold (\<lambda>i out. layer Math_tanh (the (w_hidden model i)) out)
          [0..<iters (hidden config)]
          (layer Math_tanh (w_in model) [x, y, Fin 1]))"

text \<open>
  A model for input size \<open>k\<close> with the hidden matrices \<open>0, ..., h - 1\<close>, all of the right
  shape.
\<close>

definition model_ok :: "Model \<Rightarrow> nat \<Rightarrow> nat \<Rightarrow> bool" where
  "model_ok model k h \<longleftrightarrow>
     shaped (w_in model) k 3 \<and> shaped (w_out model) 3 k \<and>
     (\<forall>i<h. \<exists>wi. w_hidden model i = Some wi \<and> shaped wi k k)"

text \<open>
  A value of the output layer as the program computes it: \<^verbatim>\<open>NaN\<close>, or a number in the
  closed interval \<open>[0, 1]\<close>.
\<close>

definition unit_or_NaN :: "number \<Rightarrow> bool" where
  "unit_or_NaN v = (case v of NaN \<Rightarrow> True | Fin t \<Rightarrow> 0 \<le> t \<and> t \<le> 1)"

text \<open>
  The Gaussian samples that \<open>k\<close> successive calls of \<^verbatim>\<open>generateGaussianRandom\<close> return on
  the random source \<open>g\<close>, with the source that they leave; \<open>None\<close> when one of the calls
  does not return.
\<close>

fun gaussians :: "nat \<Rightarrow> rng \<Rightarrow> (real list \<times> rng) option" where
  "gaussians 0 g = Some ([], g)"
| "gaussians (Suc k) g =
     (case generateGaussianRandom g of
        None \<Rightarrow> None
      | Some (z, g1) \<Rightarrow>
          (case gaussians k g1 of None \<Rightarrow> None | Some (zs, g2) \<Rightarrow> Some (z # zs, g2)))"

text \<open>
  The number of elements of the buffer that the constructor builds for a product
  \<open>v = n * d\<close> (\<open>v\<close> truncated, and 0 for \<^verbatim>\<open>NaN\<close>), and the products on which it raises.
\<close>

definition buffer_length :: "number \<Rightarrow> nat" where
  "buffer_length v = (case v of NaN \<Rightarrow> 0 | Fin r \<Rightarrow> nat \<lfloor>r\<rfloor>)"

definition negative_length :: "number \<Rightarrow> bool" where
  "negative_length v = (case v of NaN \<Rightarrow> False | Fin r \<Rightarrow> r \<le> - 1)"

text \<open>
  The model in the words of the specification.  Every weight is \<open>0 + z * 0.8\<close> for a
  Gaussian sample \<open>z\<close>, and the samples are used in the order in which they are drawn:
  those of \<^verbatim>\<open>w_in\<close> first, then those of \<^verbatim>\<open>w_out\<close>, then those of the hidden matrices
  \<open>0, 1, ...\<close>; there is a hidden matrix for every natural number below \<open>hidden\<close>.
\<close>

definition weights :: "real list \<Rightarrow> number list" where
  "weights zs = map (\<lambda>z. Fin 0 + Fin z * Fin (8 / 10)) zs"

definition sample_count :: "Config \<Rightarrow> nat" where
  "sample_count config =
     (let a = input config; p = buffer_length (a * Fin 3); q = buffer_length (a * a)
      in p + p + iters (hidden config) * q)"

definition sampled_model :: "Config \<Rightarrow> real list \<Rightarrow> Model" where
  "sampled_model config zs =
     (let a = input config; p = buffer_length (a * Fin 3); q = buffer_length (a * a)
      in \<lparr>w_in = \<lparr>n = a, d = Fin 3, w = weights (take p zs)\<rparr>,
          w_out = \<lparr>n = Fin 3, d = a, w = weights (take p (drop p zs))\<rparr>,
          w_hidden = (\<lambda>i. if js_lt (Fin (real i)) (hidden config)
                          then Some \<lparr>n = a, d = a, w = weights (take q (drop (p + p + i * q) zs))\<rparr>
                          else None)\<rparr>)"

text \<open>Configurations used as examples.\<close>

definition config_example :: Config where
  "config_example = \<lparr>width = Fin 2, height = Fin 1, input = Fin 4, hidden = Fin 2,
           maxR = Fin 255, maxG = Fin 255, maxB = Fin 255\<rparr>"

definition config_half_input :: Config where
  "config_half_input = \<lparr>width = Fin 2, height = Fin 1, input = Fin (1 / 2), hidden = Fin 0,
           maxR = Fin 255, maxG = Fin 255, maxB = Fin 255\<rparr>"

definition config_nan_input :: Config where
  "config_nan_input = \<lparr>width = Fin 2, height = Fin 1, input = NaN, hidden = Fin 0,
           maxR = Fin 255, maxG = Fin 255, maxB = Fin 255\<rparr>"

text \<open>The Gaussian sample drawn from a random source whose draws are all \<open>3/4\<close>.\<close>

definition gauss_three_quarters :: real where
  "gauss_three_quarters = sqrt (- (4 * ln (1 / 2))) / 2"

definition config_zero_input :: Config where
  "config_zero_input = \<lparr>width = Fin 2, height = Fin 1, input = Fin 0, hidden = Fin 2,
           maxR = Fin 255, maxG = Fin 255, maxB = Fin 255\<rparr>"

text \<open>
  The colour of a pixel in the words of the specification: the noise of a draw \<open>a\<close>, and a
  channel, the activation plus the noise, scaled by the channel's maximum and clamped to
  \<open>[0, 255]\<close>; a \<^verbatim>\<open>NaN\<close> product stays \<^verbatim>\<open>NaN\<close>.
\<close>

definition noise_value :: "real \<Rightarrow> real" where
  "noise_value a = (a * 2 - 1) * (3 / 100)"

definition channel :: "number \<Rightarrow> real \<Rightarrow> number \<Rightarrow> number" where
  "channel act a mx =
     (case (act + Fin (noise_value a)) * mx of
        NaN \<Rightarrow> NaN
      | Fin p \<Rightarrow> Fin (min 255 (max 0 p)))"

definition activation :: "Matrix \<Rightarrow> nat \<Rightarrow> number" where
  "activation out i = to_number (array_get (w out) (Fin (real i)))"

definition channels :: "Config \<Rightarrow> Matrix \<Rightarrow> rng \<Rightarrow> number \<times> number \<times> number \<times> number" where
  "channels config out g =
     (channel (activation out 0) (g 0) (maxR config),
      channel (activation out 1) (g 1) (maxG config),
      channel (activation out 2) (g 2) (maxB config),
      Fin 255)"

text \<open>The model for \<open>input = 0\<close> and no hidden layer, and a configuration with a \<^verbatim>\<open>NaN\<close> maximum.\<close>

definition model_empty :: Model where
  "model_empty = \<lparr>w_in = \<lparr>n = Fin 0, d = Fin 3, w = []\<rparr>,
                  w_out = \<lparr>n = Fin 3, d = Fin 0, w = []\<rparr>,
                  w_hidden = Map.empty\<rparr>"

definition config_nan_maxR :: Config where
  "config_nan_maxR = \<lparr>width = Fin 2, height = Fin 1, input = Fin 0, hidden = Fin 0,
           maxR = NaN, maxG = Fin 255, maxB = Fin 255\<rparr>"

text \<open>The four bytes that the image buffer stores for a colour.\<close>

definition quad_bytes :: "number \<times> number \<times> number \<times> number \<Rightarrow> nat list" where
  "quad_bytes c =
     (case c of (r, g, b, a) \<Rightarrow> [ToUint8Clamp r, ToUint8Clamp g, ToUint8Clamp b, ToUint8Clamp a])"

definition config_negative_input :: Config where
  "config_negative_input = \<lparr>width = Fin 2, height = Fin 1, input = Fin (- 1), hidden = Fin 0,
           maxR = Fin 255, maxG = Fin 255, maxB = Fin 255\<rparr>"

definition config_fractional_hidden :: Config where
  "config_fractional_hidden = \<lparr>width = Fin 2, height = Fin 1, input = Fin 1, hidden = Fin (3 / 2),
           maxR = Fin 255, maxG = Fin 255, maxB = Fin 255\<rparr>"

section \<open>Typed arrays and the matrix class: properties\<close>

declare for_loop.simps [simp del] for_loopE.simps [simp del] for_loopR.simps [simp del]

lemma array_index_neg: "r < 0 \<Longrightarrow> array_index (Fin r) len = None"
  by (simp add: array_index_def)

lemma array_index_len: "array_index (Fin (real len)) len = None"
  by (simp add: array_index_def)

lemma array_index_nat: "array_index (Fin (real i)) len = (if i < len then Some i else None)"
  by (simp add: array_index_def)

lemma array_set_nat: "array_set xs (Fin (real i)) v = xs[i := v]"
  by (simp add: array_set_def array_index_nat list_update_beyond)

lemma array_get_nat: "i < length xs \<Longrightarrow> array_get xs (Fin (real i)) = Some (xs ! i)"
  by (simp add: array_get_def array_index_nat)

lemma zeros_eq:
  "zeros v = (if negative_length v then Inl RangeError else Inr (replicate (buffer_length v) (Fin 0)))"
proof (cases v)
  case NaN
  then show ?thesis
    by (simp add: zeros_def negative_length_def buffer_length_def)
next
  case (Fin r)
  show ?thesis
  proof (cases "0 \<le> r")
    case True
    then show ?thesis
      using Fin by (simp add: zeros_def Float64Array_new_def ToIndex_def Let_def
          negative_length_def buffer_length_def)
  next
    case False
    show ?thesis
    proof (cases "r \<le> - 1")
      case True
      then show ?thesis
        using Fin by (simp add: zeros_def Float64Array_new_def ToIndex_def Let_def
            negative_length_def buffer_length_def ceiling_less_iff)
    next
      case False
      with \<open>\<not> 0 \<le> r\<close> have "\<lceil>r\<rceil> = 0" "\<lfloor>r\<rfloor> = - 1"
        by linarith+
      then show ?thesis
        using Fin False \<open>\<not> 0 \<le> r\<close> by (simp add: zeros_def Float64Array_new_def ToIndex_def Let_def
            negative_length_def buffer_length_def)
    qed
  qed
qed

lemma Matrix_new_eq:
  "Matrix_new rows cols =
     (if negative_length (rows * cols) then Inl RangeError
      else Inr \<lparr>n = rows, d = cols, w = replicate (buffer_length (rows * cols)) (Fin 0)\<rparr>)"
  by (simp add: Matrix_new_def zeros_eq)

lemma buffer_length_nat [simp]: "buffer_length (Fin (real k)) = k"
  by (simp add: buffer_length_def)

lemma buffer_length_numeral [simp]:
  "buffer_length (Fin (numeral m)) = numeral m" "buffer_length (Fin 1) = 1" "buffer_length (Fin 0) = 0"
  by (simp_all add: buffer_length_def)

lemma negative_length_numeral [simp]:
  "\<not> negative_length (Fin (numeral m))" "\<not> negative_length (Fin 1)" "\<not> negative_length (Fin 0)"
  by (simp_all add: negative_length_def)

lemma negative_length_nat [simp]: "\<not> negative_length (Fin (real k))"
  by (simp add: negative_length_def)

lemma Matrix_upto_eq:
  "Matrix_upto L rows cols =
     (if negative_length (rows * cols) \<or> L < buffer_length (rows * cols) then Inl RangeError
      else Inr \<lparr>n = rows, d = cols, w = replicate (buffer_length (rows * cols)) (Fin 0)\<rparr>)"
proof (cases "rows * cols")
  case NaN
  then show ?thesis
    by (simp add: Matrix_upto_def zeros_upto_def negative_length_def buffer_length_def)
next
  case (Fin r)
  have z: "zeros (Fin r) = Float64Array_new (Fin r)"
    by (simp add: zeros_def)
  show ?thesis
    using zeros_eq [of "Fin r"] Fin
    by (auto simp: Matrix_upto_def zeros_upto_def Float64Array_upto_def ToIndex_upto_def z
        Float64Array_new_def split: sum.splits if_splits)
qed

text \<open>
  C3.  \<^verbatim>\<open>get\<close> and \<^verbatim>\<open>set\<close> compute the flat index \<open>ix = d * row + col\<close> and raise the
  out-of-bounds error exactly when \<open>ix \<ge> 0\<close> and \<open>ix\<close> is strictly greater than the buffer
  length.  A negative \<open>ix\<close>, an \<open>ix\<close> equal to the length and a \<^verbatim>\<open>NaN\<close> index are not
  rejected: \<^verbatim>\<open>get\<close> returns \<^verbatim>\<open>undefined\<close> and \<^verbatim>\<open>set\<close> leaves the matrix as it is.
\<close>

theorem get_set_bounds_check:
  "(case d m * row + col of
      NaN \<Rightarrow> get m row col = Inr None \<and> set_m m row col v = Inr m
    | Fin r \<Rightarrow>
        (get m row col = Inl IndexError \<longleftrightarrow> 0 \<le> r \<and> real (length (w m)) < r) \<and>
        (set_m m row col v = Inl IndexError \<longleftrightarrow> 0 \<le> r \<and> real (length (w m)) < r) \<and>
        (\<forall>e. get m row col = Inl e \<or> set_m m row col v = Inl e \<longrightarrow> e = IndexError) \<and>
        (r < 0 \<longrightarrow> get m row col = Inr None \<and> set_m m row col v = Inr m) \<and>
        (r = real (length (w m)) \<longrightarrow> get m row col = Inr None \<and> set_m m row col v = Inr m))"
proof (cases "d m * row + col")
  case NaN
  then show ?thesis
    by (simp add: get_def set_m_def array_get_def array_set_def array_index_def)
next
  case (Fin r)
  have a: "r < 0 \<Longrightarrow> get m row col = Inr None \<and> set_m m row col v = Inr m"
    using Fin by (simp add: get_def set_m_def array_get_def array_set_def array_index_neg)
  have b: "r = real (length (w m)) \<Longrightarrow> get m row col = Inr None \<and> set_m m row col v = Inr m"
    using Fin by (simp add: get_def set_m_def array_get_def array_set_def array_index_len)
  have c: "get m row col = Inl IndexError \<longleftrightarrow> 0 \<le> r \<and> real (length (w m)) < r"
    using Fin by (simp add: get_def)
  have e: "set_m m row col v = Inl IndexError \<longleftrightarrow> 0 \<le> r \<and> real (length (w m)) < r"
    using Fin by (simp add: set_m_def)
  have f: "\<forall>e. get m row col = Inl e \<or> set_m m row col v = Inl e \<longrightarrow> e = IndexError"
    using Fin by (auto simp: get_def set_m_def split: if_splits)
  from a b c e f show ?thesis
    using Fin by simp
qed

theorem get_set_bounds_check_witness:
  "get \<lparr>n = Fin 2, d = Fin 2, w = [Fin 1, Fin 2, Fin 3, Fin 4]\<rparr> (Fin 2) (Fin 0) = Inr None
   \<and> set_m \<lparr>n = Fin 2, d = Fin 2, w = [Fin 1, Fin 2, Fin 3, Fin 4]\<rparr> (Fin (- 1)) (Fin 0) (Fin 9)
       = Inr \<lparr>n = Fin 2, d = Fin 2, w = [Fin 1, Fin 2, Fin 3, Fin 4]\<rparr>
   \<and> get \<lparr>n = Fin 2, d = Fin 2, w = [Fin 1, Fin 2, Fin 3, Fin 4]\<rparr> (Fin 2) (Fin 1) = Inl IndexError"
  using get_set_bounds_check [of "\<lparr>n = Fin 2, d = Fin 2, w = [Fin 1, Fin 2, Fin 3, Fin 4]\<rparr>" "Fin 2" "Fin 0" "Fin 9"]
    get_set_bounds_check [of "\<lparr>n = Fin 2, d = Fin 2, w = [Fin 1, Fin 2, Fin 3, Fin 4]\<rparr>" "Fin (- 1)" "Fin 0" "Fin 9"]
    get_set_bounds_check [of "\<lparr>n = Fin 2, d = Fin 2, w = [Fin 1, Fin 2, Fin 3, Fin 4]\<rparr>" "Fin 2" "Fin 1" "Fin 9"]
  by (simp add: times_number_def plus_number_def)

text \<open>
  C7, as stated, fails: a product \<open>n * d\<close> of \<open>-3\<close> is not a valid length, and the
  constructor raises a \<^verbatim>\<open>RangeError\<close> instead of building an empty buffer; a product of
  \<open>3/2\<close> gives a buffer of one element, not an empty one.
\<close>

theorem Matrix_empty_counterexample:
  "Matrix_new (Fin (- 1)) (Fin 3) = Inl RangeError
   \<and> Matrix_new (Fin (1 / 2)) (Fin 3) = Inr \<lparr>n = Fin (1 / 2), d = Fin 3, w = [Fin 0]\<rparr>"
  by (simp add: Matrix_new_def zeros_def Float64Array_new_def ToIndex_def times_number_def)

text \<open>
  C7, amended.  On an engine whose largest array length is \<open>L\<close>, \<^verbatim>\<open>new Matrix(n, d)\<close> has a
  buffer of exactly \<open>n * d\<close> zeros when \<open>n * d\<close> is an integer from 0 to \<open>L\<close>, and an empty
  buffer when \<open>n * d\<close> is \<^verbatim>\<open>NaN\<close>.  For the other products the buffer is not empty in
  general: the constructor raises a \<^verbatim>\<open>RangeError\<close> when \<open>n * d \<le> -1\<close> and when
  \<open>n * d \<ge> L + 1\<close>, and it builds a buffer of \<open>n * d\<close> truncated towards zero many zeros
  when \<open>n * d\<close> lies between \<open>-1\<close> and \<open>L + 1\<close>.  Whenever it returns a matrix, the
  constructor of the engine without a limit returns the same matrix.
\<close>

theorem Matrix_upto_cases:
  "(case rows * cols of
      NaN \<Rightarrow> Matrix_upto L rows cols = Inr \<lparr>n = rows, d = cols, w = []\<rparr>
    | Fin r \<Rightarrow>
        (r \<le> - 1 \<longrightarrow> Matrix_upto L rows cols = Inl RangeError) \<and>
        (real L + 1 \<le> r \<longrightarrow> Matrix_upto L rows cols = Inl RangeError) \<and>
        (- 1 < r \<and> r < real L + 1 \<longrightarrow>
           Matrix_upto L rows cols = Inr \<lparr>n = rows, d = cols, w = replicate (nat \<lfloor>r\<rfloor>) (Fin 0)\<rparr>) \<and>
        (\<forall>k. r = real k \<and> k \<le> L \<longrightarrow>
           Matrix_upto L rows cols = Inr \<lparr>n = rows, d = cols, w = replicate k (Fin 0)\<rparr>))
   \<and> (\<forall>m. Matrix_upto L rows cols = Inr m \<longrightarrow> Matrix_new rows cols = Inr m)"
proof -
  have link: "\<forall>m. Matrix_upto L rows cols = Inr m \<longrightarrow> Matrix_new rows cols = Inr m"
    by (auto simp: Matrix_upto_eq Matrix_new_eq split: if_splits)
  have main: "(case rows * cols of
      NaN \<Rightarrow> Matrix_upto L rows cols = Inr \<lparr>n = rows, d = cols, w = []\<rparr>
    | Fin r \<Rightarrow>
        (r \<le> - 1 \<longrightarrow> Matrix_upto L rows cols = Inl RangeError) \<and>
        (real L + 1 \<le> r \<longrightarrow> Matrix_upto L rows cols = Inl RangeError) \<and>
        (- 1 < r \<and> r < real L + 1 \<longrightarrow>
           Matrix_upto L rows cols = Inr \<lparr>n = rows, d = cols, w = replicate (nat \<lfloor>r\<rfloor>) (Fin 0)\<rparr>) \<and>
        (\<forall>k. r = real k \<and> k \<le> L \<longrightarrow>
           Matrix_upto L rows cols = Inr \<lparr>n = rows, d = cols, w = replicate k (Fin 0)\<rparr>))"
  proof (cases "rows * cols")
    case NaN
    then show ?thesis
      by (simp add: Matrix_upto_eq negative_length_def buffer_length_def)
  next
    case (Fin r)
    have a: "r \<le> - 1 \<Longrightarrow> Matrix_upto L rows cols = Inl RangeError"
      using Fin by (simp add: Matrix_upto_eq negative_length_def)
    have b: "real L + 1 \<le> r \<Longrightarrow> Matrix_upto L rows cols = Inl RangeError"
    proof -
      assume "real L + 1 \<le> r"
      then have "of_int (int L + 1) \<le> r"
        by simp
      then have "int L + 1 \<le> \<lfloor>r\<rfloor>"
        by (simp only: le_floor_iff)
      then have "L < nat \<lfloor>r\<rfloor>"
        by linarith
      then show ?thesis
        using Fin by (simp add: Matrix_upto_eq buffer_length_def)
    qed
    have c: "- 1 < r \<and> r < real L + 1 \<Longrightarrow>
        Matrix_upto L rows cols = Inr \<lparr>n = rows, d = cols, w = replicate (nat \<lfloor>r\<rfloor>) (Fin 0)\<rparr>"
    proof -
      assume r: "- 1 < r \<and> r < real L + 1"
      then have "r < of_int (int L + 1)"
        by simp
      then have "\<lfloor>r\<rfloor> < int L + 1"
        by (simp only: floor_less_iff)
      then have "\<not> L < nat \<lfloor>r\<rfloor>"
        by linarith
      then show ?thesis
        using Fin r by (simp add: Matrix_upto_eq buffer_length_def negative_length_def)
    qed
    have e: "\<forall>k. r = real k \<and> k \<le> L \<longrightarrow>
        Matrix_upto L rows cols = Inr \<lparr>n = rows, d = cols, w = replicate k (Fin 0)\<rparr>"
      using Fin by (auto simp: Matrix_upto_eq buffer_length_def negative_length_def)
    from a b c e show ?thesis
      using Fin by simp
  qed
  from main link show ?thesis
    by (rule conjI)
qed

theorem Matrix_upto_cases_witness:
  "Matrix_upto 9007199254740991 (Fin 2) (Fin 3) = Inr \<lparr>n = Fin 2, d = Fin 3, w = replicate 6 (Fin 0)\<rparr>
   \<and> Matrix_new (Fin 2) (Fin 3) = Inr \<lparr>n = Fin 2, d = Fin 3, w = replicate 6 (Fin 0)\<rparr>
   \<and> Matrix_upto 9007199254740991 NaN (Fin 3) = Inr \<lparr>n = NaN, d = Fin 3, w = []\<rparr>
   \<and> Matrix_upto 9007199254740991 (Fin (- 2)) (Fin 3) = Inl RangeError
   \<and> Matrix_upto 9007199254740991 (Fin (5 / 2)) (Fin 1) = Inr \<lparr>n = Fin (5 / 2), d = Fin 1, w = [Fin 0, Fin 0]\<rparr>
   \<and> Matrix_upto 9007199254740991 (Fin 9007199254740992) (Fin 1) = Inl RangeError
   \<and> Matrix_upto 5 (Fin 2) (Fin 3) = Inl RangeError"
proof -
  have f: "\<lfloor>(5 / 2)::real\<rfloor> = 2"
    by (rule floor_unique) simp_all
  note t1 = Matrix_upto_cases [where rows = "Fin 2" and cols = "Fin 3" and L = 9007199254740991]
  note t2 = Matrix_upto_cases [where rows = NaN and cols = "Fin 3" and L = 9007199254740991]
  note t3 = Matrix_upto_cases [where rows = "Fin (- 2)" and cols = "Fin 3" and L = 9007199254740991]
  note t4 = Matrix_upto_cases [where rows = "Fin (5 / 2)" and cols = "Fin 1" and L = 9007199254740991]
  note t5 = Matrix_upto_cases [where rows = "Fin 9007199254740992" and cols = "Fin 1" and L = 9007199254740991]
  note t6 = Matrix_upto_cases [where rows = "Fin 2" and cols = "Fin 3" and L = 5]
  from t1 have a: "Matrix_upto 9007199254740991 (Fin 2) (Fin 3)
      = Inr \<lparr>n = Fin 2, d = Fin 3, w = replicate 6 (Fin 0)\<rparr>"
    by (simp add: times_number_def)
  with t1 have a': "Matrix_new (Fin 2) (Fin 3) = Inr \<lparr>n = Fin 2, d = Fin 3, w = replicate 6 (Fin 0)\<rparr>"
    by simp
  from t2 have b: "Matrix_upto 9007199254740991 NaN (Fin 3) = Inr \<lparr>n = NaN, d = Fin 3, w = []\<rparr>"
    by (simp add: times_number_def)
  from t3 have c: "Matrix_upto 9007199254740991 (Fin (- 2)) (Fin 3) = Inl RangeError"
    by (simp add: times_number_def)
  from t4 f have e: "Matrix_upto 9007199254740991 (Fin (5 / 2)) (Fin 1)
      = Inr \<lparr>n = Fin (5 / 2), d = Fin 1, w = [Fin 0, Fin 0]\<rparr>"
    by (simp add: times_number_def numeral_2_eq_2)
  from t5 have g: "Matrix_upto 9007199254740991 (Fin 9007199254740992) (Fin 1) = Inl RangeError"
    by (simp add: times_number_def)
  from t6 have h: "Matrix_upto 5 (Fin 2) (Fin 3) = Inl RangeError"
    by (simp add: times_number_def)
  from a a' b c e g h show ?thesis
    by simp
qed

section \<open>Random matrices: properties\<close>

text \<open>
  C8.  \<^verbatim>\<open>RandMat\<close> replaces a falsy standard deviation, the number 0 included, by the
  default 0.08 and a falsy mean by 0: the matrix is filled as if the defaults had been
  passed.
\<close>

theorem RandMat_falsy_defaults:
  "(falsy standardDeviation \<longrightarrow>
      RandMat rows columns mean standardDeviation g = RandMat rows columns mean (Fin (8 / 100)) g)
   \<and> RandMat rows columns mean (Fin 0) g = RandMat rows columns mean (Fin (8 / 100)) g
   \<and> (falsy mean \<longrightarrow>
      RandMat rows columns mean standardDeviation g = RandMat rows columns (Fin 0) standardDeviation g)
   \<and> (\<forall>matrix. falsy mean \<and> falsy standardDeviation \<and> Matrix_new rows columns = Inr matrix \<longrightarrow>
      RandMat rows columns mean standardDeviation g = fillRandn matrix (Fin 0) (Fin (8 / 100)) g)"
  by (cases "Matrix_new rows columns") (simp_all add: RandMat_def js_or_def)

theorem RandMat_falsy_defaults_witness:
  "falsy (Fin 0) \<and> falsy NaN \<and>
   RandMat (Fin 1) (Fin 1) NaN (Fin 0) (\<lambda>i. 3 / 4)
     = Some (Inr (\<lparr>n = Fin 1, d = Fin 1, w = [Fin (sqrt (- (4 * ln (1 / 2))) / 25)]\<rparr>, \<lambda>i. 3 / 4))"
proof -
  have "RandMat (Fin 1) (Fin 1) NaN (Fin 0) (\<lambda>i. 3 / 4)
      = fillRandn \<lparr>n = Fin 1, d = Fin 1, w = [Fin 0]\<rparr> (Fin 0) (Fin (8 / 100)) (\<lambda>i. 3 / 4)"
  proof -
    have "Matrix_new (Fin 1) (Fin 1) = Inr \<lparr>n = Fin 1, d = Fin 1, w = [Fin 0]\<rparr>"
      by (simp add: Matrix_new_def zeros_def Float64Array_new_def ToIndex_def times_number_def)
    moreover have "\<forall>matrix. falsy NaN \<and> falsy (Fin 0) \<and> Matrix_new (Fin 1) (Fin 1) = Inr matrix \<longrightarrow>
        RandMat (Fin 1) (Fin 1) NaN (Fin 0) (\<lambda>i. 3 / 4)
          = fillRandn matrix (Fin 0) (Fin (8 / 100)) (\<lambda>i. 3 / 4)"
      using RandMat_falsy_defaults [of "Fin 0" "Fin 1" "Fin 1" NaN "\<lambda>i. 3 / 4"]
      by (elim conjE)
    ultimately show ?thesis
      by simp
  qed
  also have "\<dots> = Some (Inr (\<lparr>n = Fin 1, d = Fin 1, w = [Fin (sqrt (- (4 * ln (1 / 2))) / 25)]\<rparr>, \<lambda>i. 3 / 4))"
    by (simp add: fillRandn_def for_loopR.simps generateRandomNormal_def generateGaussianRandom.simps
        Math_random_def array_set_def array_index_def plus_number_def times_number_def)
  finally show ?thesis
    by simp
qed

section \<open>Loops as folds\<close>

lemma js_lt_iters: "js_lt (Fin (real i)) bound \<longleftrightarrow> i < iters bound"
proof (cases bound)
  case NaN
  then show ?thesis by (simp add: iters_def)
next
  case (Fin r)
  have "real i < r \<longleftrightarrow> int i < \<lceil>r\<rceil>"
    by (simp add: less_ceiling_iff)
  then show ?thesis
    using Fin by (simp add: iters_def) linarith
qed

lemma iters_nat [simp]: "iters (Fin (real k)) = k"
  by (simp add: iters_def)

lemma iters_numeral [simp]: "iters (Fin (numeral m)) = numeral m"
  by (simp add: iters_def)

lemma for_loop_fold: "for_loop i bound body s = fold body [i..<iters bound] s"
proof (induction i bound body s rule: for_loop.induct)
  case (1 i bound body s)
  show ?case
  proof (cases "i < iters bound")
    case True
    then have "for_loop i bound body s = for_loop (Suc i) bound body (body i s)"
      by (subst for_loop.simps) (simp add: js_lt_iters)
    also have "\<dots> = fold body [Suc i..<iters bound] (body i s)"
      using 1 True by (simp add: js_lt_iters)
    finally show ?thesis
      using True by (simp add: upt_conv_Cons)
  next
    case False
    then show ?thesis
      by (subst for_loop.simps) (simp add: js_lt_iters)
  qed
qed

lemma for_loop_fold': "for_loop i bound body = fold body [i..<iters bound]"
  by (rule ext) (rule for_loop_fold)

lemma for_loopE_fold: "for_loopE i bound body s = foldE body [i..<iters bound] s"
proof (induction i bound body s rule: for_loopE.induct)
  case (1 i bound body s)
  show ?case
  proof (cases "i < iters bound")
    case True
    then have up: "[i..<iters bound] = i # [Suc i..<iters bound]"
      by (simp add: upt_conv_Cons)
    show ?thesis
    proof (cases "body i s")
      case (Inl e)
      then show ?thesis
        using True by (subst for_loopE.simps) (simp add: js_lt_iters up)
    next
      case (Inr s')
      then have "for_loopE (Suc i) bound body s' = foldE body [Suc i..<iters bound] s'"
        using 1 True by (simp add: js_lt_iters)
      then show ?thesis
        using True Inr by (subst for_loopE.simps) (simp add: js_lt_iters up)
    qed
  next
    case False
    then show ?thesis
      by (subst for_loopE.simps) (simp add: js_lt_iters)
  qed
qed

lemma for_loopR_fold: "for_loopR i bound body s = foldR body [i..<iters bound] s"
proof (induction i bound body s rule: for_loopR.induct)
  case (1 i bound body s)
  show ?case
  proof (cases "i < iters bound")
    case True
    then have up: "[i..<iters bound] = i # [Suc i..<iters bound]"
      by (simp add: upt_conv_Cons)
    show ?thesis
    proof (cases "body i s")
      case None
      then show ?thesis
        using True by (subst for_loopR.simps) (simp add: js_lt_iters up)
    next
      case (Some res)
      show ?thesis
      proof (cases res)
        case (Inl e)
        then show ?thesis
          using True Some by (subst for_loopR.simps) (simp add: js_lt_iters up)
      next
        case (Inr s')
        then have "for_loopR (Suc i) bound body s' = foldR body [Suc i..<iters bound] s'"
          using 1 True Some by (simp add: js_lt_iters)
        then show ?thesis
          using True Some Inr by (subst for_loopR.simps) (simp add: js_lt_iters up)
      qed
    qed
  next
    case False
    then show ?thesis
      by (subst for_loopR.simps) (simp add: js_lt_iters)
  qed
qed

text \<open>Successive writes at distinct places.\<close>

lemma fold_update_length [simp]:
  "length (fold (\<lambda>j xs. xs[g j := f j]) js xs) = length xs"
  by (induction js arbitrary: xs) simp_all

lemma fold_update_other:
  "p \<notin> g ` set js \<Longrightarrow> fold (\<lambda>j xs. xs[g j := f j]) js xs ! p = xs ! p"
  by (induction js arbitrary: xs) auto

lemma fold_update_nth:
  "distinct (map g js) \<Longrightarrow> j \<in> set js \<Longrightarrow> g j < length xs \<Longrightarrow>
     fold (\<lambda>j xs. xs[g j := f j]) js xs ! g j = f j"
proof (induction js arbitrary: xs)
  case Nil
  then show ?case by simp
next
  case (Cons a js)
  show ?case
  proof (cases "j \<in> set js")
    case True
    then show ?thesis
      using Cons by simp
  next
    case False
    then have "j = a" and "g a \<notin> g ` set js"
      using Cons.prems by auto
    then show ?thesis
      using Cons.prems by (simp add: fold_update_other)
  qed
qed

lemma fold_w_update:
  "fold (\<lambda>j out. out\<lparr>w := F j (w out)\<rparr>) js out = out\<lparr>w := fold F js (w out)\<rparr>"
  by (induction js arbitrary: out) simp_all

lemma fold_plus_sum:
  fixes a :: "'a::comm_monoid_add"
  shows "fold (\<lambda>k acc. acc + f k) [0..<m] a = a + sum_list (map f [0..<m])"
  by (induction m) (simp_all add: add.assoc)

section \<open>The matrix product: properties\<close>

lemma Fin_index [simp]: "Fin (real c) * Fin (real i) + Fin (real j) = Fin (real (c * i + j))"
  by (simp add: times_number_def plus_number_def)

lemma Matrix_new_nat:
  "Matrix_new (Fin (real r)) (Fin (real c))
     = Inr \<lparr>n = Fin (real r), d = Fin (real c), w = replicate (r * c) (Fin 0)\<rparr>"
proof -
  have "Fin (real r) * Fin (real c) = Fin (real (r * c))"
    by (simp add: times_number_def)
  moreover have "ToIndex (Fin (real (r * c))) = Inr (r * c)"
    by (simp add: ToIndex_def del: of_nat_mult)
  ultimately show ?thesis
    by (simp add: Matrix_new_def zeros_def Float64Array_new_def del: of_nat_mult)
qed

lemma map2_same: "map2 h (map f xs) (map g xs) = map (\<lambda>x. h (f x) (g x)) xs"
  by (induction xs) simp_all

lemma dot_loop_shaped:
  assumes A: "shaped A r k" and B: "shaped B k c" and i: "i < r" and j: "j < c"
  shows "dot_loop A B i j = dot_product (row_of A k i) (col_of B k c j)"
proof -
  let ?f = "\<lambda>l. w A ! (k * i + l) * w B ! (c * l + j)"
  have inA: "k * i + l < length (w A)" if "l < k" for l
  proof -
    have "k * i + l < k * i + k" using that by simp
    also have "\<dots> = k * Suc i" by simp
    also have "\<dots> \<le> k * r" using i by (intro mult_le_mono2) simp
    finally show ?thesis using A by (simp add: shaped_def mult.commute)
  qed
  have inB: "c * l + j < length (w B)" if "l < k" for l
  proof -
    have "c * l + j < c * l + c" using j by simp
    also have "\<dots> = c * Suc l" by simp
    also have "\<dots> \<le> c * k" using that by (intro mult_le_mono2) simp
    finally show ?thesis using B by (simp add: shaped_def mult.commute)
  qed
  have "dot_loop A B i j
      = fold (\<lambda>l dot. dot + to_number (array_get (w A) (Fin (real (k * i + l))))
                          * to_number (array_get (w B) (Fin (real (c * l + j))))) [0..<k] (Fin 0)"
    using A B by (simp add: dot_loop_def shaped_def for_loop_fold)
  also have "\<dots> = fold (\<lambda>l dot. dot + ?f l) [0..<k] (Fin 0)"
    by (rule fold_cong) (simp_all add: array_get_nat inA inB del: of_nat_add of_nat_mult)
  also have "\<dots> = sum_list (map ?f [0..<k])"
    by (simp add: fold_plus_sum zero_number_def [symmetric])
  also have "\<dots> = dot_product (row_of A k i) (col_of B k c j)"
    by (simp add: dot_product_def row_of_def col_of_def map2_same)
  finally show ?thesis .
qed

lemma fold_product:
  "fold (\<lambda>i. fold (\<lambda>j. h i j) ys) xs s = fold (\<lambda>(i, j). h i j) (List.product xs ys) s"
  by (induction xs arbitrary: s) (simp_all add: fold_map comp_def)

lemma cell_index_inj:
  "inj_on (\<lambda>(i, j). c * i + j) (set (List.product [0..<r] [0..<c]))"
proof (rule inj_onI, clarsimp)
  fix i j i' j' :: nat
  assume j: "j < c" and j': "j' < c" and eq: "c * i + j = c * i' + j'"
  have "(c * i + j) div c = i" "(c * i + j) mod c = j"
    using j by simp_all
  moreover have "(c * i' + j') div c = i'" "(c * i' + j') mod c = j'"
    using j' by simp_all
  ultimately show "i = i' \<and> j = j'"
    using eq by metis
qed

lemma matrixMul_shaped:
  assumes A: "shaped A r k" and B: "shaped B k c"
  shows "\<exists>out. matrixMul A B = Inr out \<and> shaped out r c \<and>
           (\<forall>i<r. \<forall>j<c. w out ! (c * i + j) = dot_product (row_of A k i) (col_of B k c j))"
proof -
  let ?g = "\<lambda>(i, j). c * i + j"
  let ?f = "\<lambda>(i, j). dot_loop A B i j"
  let ?ps = "List.product [0..<r] [0..<c]"
  let ?buf = "fold (\<lambda>p xs. xs[?g p := ?f p]) ?ps (replicate (r * c) (Fin 0))"
  let ?out = "\<lparr>n = Fin (real r), d = Fin (real c), w = ?buf\<rparr>"
  have ne: "\<not> js_sne (d A) (n B)"
    using A B by (simp add: shaped_def)
  have "fold (\<lambda>i out. fold (\<lambda>j out. out\<lparr>w := (w out)[c * i + j := dot_loop A B i j]\<rparr>) [0..<c] out)
          [0..<r] \<lparr>n = Fin (real r), d = Fin (real c), w = replicate (r * c) (Fin 0)\<rparr>
        = ?out"
    using fold_w_update [where F = "\<lambda>p xs. xs[c * fst p + snd p := dot_loop A B (fst p) (snd p)]"
        and js = "?ps"
        and out = "\<lparr>n = Fin (real r), d = Fin (real c), w = replicate (r * c) (Fin 0)\<rparr>"]
    by (simp add: fold_product case_prod_unfold)
  then have mm: "matrixMul A B = Inr ?out"
    using A B ne
    by (simp add: matrixMul_def shaped_def Let_def bindE_def Matrix_new_nat for_loop_fold'
        array_set_nat del: of_nat_add of_nat_mult)
  have sh: "shaped ?out r c"
    by (simp add: shaped_def)
  have cells: "w ?out ! (c * i + j) = dot_product (row_of A k i) (col_of B k c j)"
    if i: "i < r" and j: "j < c" for i j
  proof -
    have "c * i + j < c * i + c" using j by simp
    also have "\<dots> = c * Suc i" by simp
    also have "\<dots> \<le> c * r" using i by (intro mult_le_mono2) simp
    finally have lt: "?g (i, j) < length (replicate (r * c) (Fin 0 :: number))"
      by (simp add: mult.commute)
    have dist: "distinct (map ?g ?ps)"
      using cell_index_inj [of c r] by (simp add: distinct_map distinct_product)
    have mem: "(i, j) \<in> set ?ps"
      using i j by simp
    have "?buf ! ?g (i, j) = ?f (i, j)"
      using dist mem lt by (rule fold_update_nth)
    then show ?thesis
      using A B i j by (simp add: dot_loop_shaped)
  qed
  from mm sh cells show ?thesis
    by blast
qed

lemma Matrix_new_error: "Matrix_new rows cols = Inl e \<Longrightarrow> e = RangeError"
  by (auto simp: Matrix_new_def zeros_def Float64Array_new_def ToIndex_def Let_def
      split: if_splits sum.splits number.splits)




section \<open>The forward pass and the model: properties\<close>

lemma bindE_simps [simp]: "bindE (Inl e) f = Inl e" "bindE (Inr v) f = f v"
  by (simp_all add: bindE_def)

lemma bindR_simps [simp]:
  "bindR None f = None" "bindR (Some (Inl e)) f = Some (Inl e)" "bindR (Some (Inr v)) f = f v"
  by (simp_all add: bindR_def)

lemma fold_update_all:
  assumes "length xs = len"
  shows "fold (\<lambda>i xs. xs[i := F i]) [0..<len] xs = map F [0..<len]"
proof (rule nth_equalityI)
  show "length (fold (\<lambda>i xs. xs[i := F i]) [0..<len] xs) = length (map F [0..<len])"
    using assms fold_update_length [where g = "\<lambda>j. j" and f = F] by simp
next
  fix i
  assume "i < length (fold (\<lambda>i xs. xs[i := F i]) [0..<len] xs)"
  then have i: "i < len"
    using assms fold_update_length [where g = "\<lambda>j. j" and f = F and js = "[0..<len]" and xs = xs]
    by simp
  then have "fold (\<lambda>j xs. xs[j := F j]) [0..<len] xs ! i = F i"
    using assms fold_update_nth [where g = "\<lambda>j. j" and f = F and js = "[0..<len]" and j = i and xs = xs]
    by simp
  then show "fold (\<lambda>i xs. xs[i := F i]) [0..<len] xs ! i = map F [0..<len] ! i"
    using i by simp
qed

lemma map_array_get:
  "map (\<lambda>i. h (to_number (array_get ys (Fin (real i))))) [0..<length ys] = map h ys"
  by (rule nth_equalityI) (simp_all add: array_get_nat)

lemma elementwise_shaped:
  assumes "shaped m r c"
  shows "bindE (Matrix_new (n m) (d m)) (\<lambda>out.
       Inr (for_loop 0 (Fin (real (length (w m))))
              (\<lambda>i out. out\<lparr>w := array_set (w out) (Fin (real i))
                                   (h (to_number (array_get (w m) (Fin (real i)))))\<rparr>)
              out))
     = Inr \<lparr>n = Fin (real r), d = Fin (real c), w = map h (w m)\<rparr>"
proof -
  let ?F = "\<lambda>i. h (to_number (array_get (w m) (Fin (real i))))"
  let ?z = "\<lparr>n = Fin (real r), d = Fin (real c), w = replicate (r * c) (Fin 0)\<rparr>"
  have len: "length (w m) = r * c" and nd: "n m = Fin (real r)" "d m = Fin (real c)"
    using assms by (simp_all add: shaped_def)
  have "fold (\<lambda>i out. out\<lparr>w := (w out)[i := ?F i]\<rparr>) [0..<r * c] ?z
       = ?z\<lparr>w := fold (\<lambda>i xs. xs[i := ?F i]) [0..<r * c] (w ?z)\<rparr>"
    by (rule fold_w_update [where F = "\<lambda>i xs. xs[i := ?F i]"])
  also have "\<dots> = \<lparr>n = Fin (real r), d = Fin (real c), w = map ?F [0..<r * c]\<rparr>"
    by (simp add: fold_update_all del: of_nat_mult)
  also have "map ?F [0..<r * c] = map h (w m)"
    using map_array_get [of h "w m"] len by simp
  finally show ?thesis
    using nd len by (simp add: bindE_def Matrix_new_nat for_loop_fold array_set_nat del: of_nat_mult)
qed

lemma tanh_m_shaped:
  "shaped m r c \<Longrightarrow> tanh_m m = Inr \<lparr>n = Fin (real r), d = Fin (real c), w = map Math_tanh (w m)\<rparr>"
  unfolding tanh_m_def by (rule elementwise_shaped)

lemma sigmoid_shaped:
  "shaped m r c \<Longrightarrow> sigmoid m = Inr \<lparr>n = Fin (real r), d = Fin (real c), w = map sig (w m)\<rparr>"
  unfolding sigmoid_def by (rule elementwise_shaped)

lemma col_of_vector: "length (w v) = k \<Longrightarrow> col_of v k (Suc 0) 0 = w v"
  by (rule nth_equalityI) (simp_all add: col_of_def)

lemma matrixMul_vector:
  assumes A: "shaped A r k" and v: "shaped v k 1"
  shows "matrixMul A v = Inr \<lparr>n = Fin (real r), d = Fin 1, w = mat_vec A (w v)\<rparr>"
proof -
  from matrixMul_shaped [OF A v] obtain out where
    mm: "matrixMul A v = Inr out" and sh: "shaped out r 1"
    and cells: "\<forall>i<r. \<forall>j<1. w out ! (1 * i + j) = dot_product (row_of A k i) (col_of v k 1 j)"
    by blast
  have lv: "length (w v) = k"
    using v by (simp add: shaped_def)
  have nA: "iters (n A) = r"
    using A by (simp add: shaped_def)
  have "w out = mat_vec A (w v)"
  proof (rule nth_equalityI)
    show "length (w out) = length (mat_vec A (w v))"
      using sh nA by (simp add: shaped_def mat_vec_def)
  next
    fix i
    assume "i < length (w out)"
    then have i: "i < r"
      using sh by (simp add: shaped_def)
    with cells have "w out ! i = dot_product (row_of A k i) (col_of v k 1 0)"
      by simp
    then show "w out ! i = mat_vec A (w v) ! i"
      using i lv nA by (simp add: mat_vec_def col_of_vector)
  qed
  then have "out = \<lparr>n = Fin (real r), d = Fin 1, w = mat_vec A (w v)\<rparr>"
    using sh by (cases out) (simp add: shaped_def)
  with mm show ?thesis
    by simp
qed

lemma layer_tanh_shaped:
  assumes A: "shaped A r k" and v: "shaped v k 1"
  shows "bindE (matrixMul A v) tanh_m
     = Inr \<lparr>n = Fin (real r), d = Fin 1, w = layer Math_tanh A (w v)\<rparr>"
proof -
  have "shaped \<lparr>n = Fin (real r), d = Fin 1, w = mat_vec A (w v)\<rparr> r 1"
    using A by (simp add: shaped_def mat_vec_def)
  from tanh_m_shaped [OF this] show ?thesis
    using matrixMul_vector [OF A v] by (simp add: bindE_def layer_def)
qed

lemma layer_sigmoid_shaped:
  assumes A: "shaped A r k" and v: "shaped v k 1"
  shows "bindE (matrixMul A v) sigmoid
     = Inr \<lparr>n = Fin (real r), d = Fin 1, w = layer sig A (w v)\<rparr>"
proof -
  have "shaped \<lparr>n = Fin (real r), d = Fin 1, w = mat_vec A (w v)\<rparr> r 1"
    using A by (simp add: shaped_def mat_vec_def)
  from sigmoid_shaped [OF this] show ?thesis
    using matrixMul_vector [OF A v] by (simp add: bindE_def layer_def)
qed

lemma length_layer: "length (layer act m v) = iters (n m)"
  by (simp add: layer_def mat_vec_def)

lemma input_vector:
  "bindE (Matrix_new (Fin 3) (Fin 1)) (\<lambda>x.
     bindE (set_m x (Fin 0) (Fin 0) x') (\<lambda>x.
     bindE (set_m x (Fin 1) (Fin 0) y') (\<lambda>x.
     bindE (set_m x (Fin 2) (Fin 0) (Fin 1)) f)))
   = f \<lparr>n = Fin 3, d = Fin 1, w = [x', y', Fin 1]\<rparr>"
proof -
  have "Matrix_new (Fin 3) (Fin 1) = Inr \<lparr>n = Fin 3, d = Fin 1, w = [Fin 0, Fin 0, Fin 0]\<rparr>"
    using Matrix_new_nat [of 3 1] by (simp add: numeral_3_eq_3)
  then show ?thesis
    by (simp add: set_m_def Let_def times_number_def plus_number_def array_set_def
        array_index_def)
qed

lemma shaped_vector: "shaped out k 1 \<Longrightarrow> out = \<lparr>n = Fin (real k), d = Fin 1, w = w out\<rparr>"
  by (cases out) (simp add: shaped_def)

lemma hidden_layers_shaped:
  assumes "\<forall>i\<in>set js. \<exists>wi. w_hidden model i = Some wi \<and> shaped wi k k"
    and "shaped out k 1"
  shows "foldE (\<lambda>i out. case w_hidden model i of
                          None \<Rightarrow> Inl TypeError
                        | Some wi \<Rightarrow> bindE (matrixMul wi out) tanh_m) js out
     = Inr \<lparr>n = Fin (real k), d = Fin 1,
            w = fold (\<lambda>i v. layer Math_tanh (the (w_hidden model i)) v) js (w out)\<rparr>"
  using assms
proof (induction js arbitrary: out)
  case Nil
  then show ?case
    using shaped_vector [of out k] by simp
next
  case (Cons i js)
  then obtain wi where wi: "w_hidden model i = Some wi" "shaped wi k k"
    by auto
  let ?out' = "\<lparr>n = Fin (real k), d = Fin 1, w = layer Math_tanh wi (w out)\<rparr>"
  have step: "bindE (matrixMul wi out) tanh_m = Inr ?out'"
    using wi Cons.prems by (simp add: layer_tanh_shaped)
  have "shaped ?out' k 1"
    using wi by (simp add: shaped_def length_layer)
  then have "foldE (\<lambda>i out. case w_hidden model i of
                          None \<Rightarrow> Inl TypeError
                        | Some wi \<Rightarrow> bindE (matrixMul wi out) tanh_m) js ?out'
     = Inr \<lparr>n = Fin (real k), d = Fin 1,
            w = fold (\<lambda>i v. layer Math_tanh (the (w_hidden model i)) v) js (w ?out')\<rparr>"
    using Cons.prems by (intro Cons.IH) simp_all
  then show ?case
    using wi step by simp
qed

lemma forwardNetwork_ok:
  assumes "model_ok model k (iters (hidden config))"
  shows "forwardNetwork config model x y
     = Inr \<lparr>n = Fin 3, d = Fin 1, w = forward_spec config model x y\<rparr>"
proof -
  let ?v = "\<lparr>n = Fin 3, d = Fin 1, w = [x, y, Fin 1]\<rparr>"
  let ?h1 = "\<lparr>n = Fin (real k), d = Fin 1, w = layer Math_tanh (w_in model) [x, y, Fin 1]\<rparr>"
  let ?ws = "fold (\<lambda>i v. layer Math_tanh (the (w_hidden model i)) v) [0..<iters (hidden config)]
               (layer Math_tanh (w_in model) [x, y, Fin 1])"
  let ?h2 = "\<lparr>n = Fin (real k), d = Fin 1, w = ?ws\<rparr>"
  have win: "shaped (w_in model) k 3" and wout: "shaped (w_out model) 3 k"
    and hid: "\<forall>i\<in>set [0..<iters (hidden config)]. \<exists>wi. w_hidden model i = Some wi \<and> shaped wi k k"
    using assms by (simp_all add: model_ok_def)
  have v: "shaped ?v 3 1"
    by (simp add: shaped_def)
  have s1: "bindE (matrixMul (w_in model) ?v) tanh_m = Inr ?h1"
    using layer_tanh_shaped [OF win v] by simp
  have h1: "shaped ?h1 k 1"
    using win by (simp add: shaped_def length_layer)
  have s2: "for_loopE 0 (hidden config)
              (\<lambda>i out. case w_hidden model i of
                          None \<Rightarrow> Inl TypeError
                        | Some wi \<Rightarrow> bindE (matrixMul wi out) tanh_m) ?h1 = Inr ?h2"
    using hidden_layers_shaped [OF hid h1] by (simp add: for_loopE_fold)
  have lws: "length ?ws = k"
  proof -
    have "length (fold (\<lambda>i v. layer Math_tanh (the (w_hidden model i)) v) js v0) = k"
      if "\<forall>i\<in>set js. \<exists>wi. w_hidden model i = Some wi \<and> shaped wi k k" "length v0 = k"
      for js v0
      using that
    proof (induction js arbitrary: v0)
      case Nil
      then show ?case by simp
    next
      case (Cons i js)
      then obtain wi where "w_hidden model i = Some wi" "shaped wi k k"
        by auto
      then have "length (layer Math_tanh (the (w_hidden model i)) v0) = k"
        by (simp add: length_layer shaped_def)
      then show ?case
        using Cons by simp
    qed
    then show ?thesis
      using hid h1 by (simp add: shaped_def)
  qed
  have h2: "shaped ?h2 k 1"
    using lws by (simp add: shaped_def)
  have s3: "bindE (matrixMul (w_out model) ?h2) sigmoid
      = Inr \<lparr>n = Fin 3, d = Fin 1, w = layer sig (w_out model) ?ws\<rparr>"
    using layer_sigmoid_shaped [OF wout h2] by simp
  show ?thesis
    unfolding forwardNetwork_def input_vector
    by (simp add: s1 s2 s3 forward_spec_def)
qed

lemma gauss_const:
  "generateGaussianRandom (\<lambda>i. 3 / 4) = Some (sqrt (- (4 * ln (1 / 2))) / 2, \<lambda>i. 3 / 4)"
  by (subst generateGaussianRandom.simps) (simp add: Math_random_def)

lemma gauss_z34: "generateGaussianRandom (\<lambda>i. 3 / 4) = Some (gauss_three_quarters, \<lambda>i. 3 / 4)"
  by (simp add: gauss_const gauss_three_quarters_def)

lemma fill_const:
  "\<exists>m'. foldR (\<lambda>i (matrix, g).
          case generateRandomNormal mean sd g of
            None \<Rightarrow> None
          | Some (v, g') \<Rightarrow> Some (Inr (matrix\<lparr>w := array_set (w matrix) (Fin (real i)) v\<rparr>, g')))
       js (m, \<lambda>i. 3 / 4) = Some (Inr (m', \<lambda>i. 3 / 4))"
  by (induction js arbitrary: m) (simp_all add: generateRandomNormal_def gauss_const)

lemma RandMat_const:
  assumes "Matrix_new rows cols = Inr m0"
  shows "\<exists>m. RandMat rows cols mean sd (\<lambda>i. 3 / 4) = Some (Inr (m, \<lambda>i. 3 / 4))"
  using assms fill_const [of "js_or mean (Fin 0)" "js_or sd (Fin (8 / 100))" _ m0]
  by (simp add: RandMat_def fillRandn_def for_loopR_fold)

lemma hidden_const:
  assumes "Matrix_new a b = Inr m0"
  shows "\<exists>model'. foldR (\<lambda>layerIndex (model, g).
              bindR (RandMat a b mean sd g) (\<lambda>(m, g').
                Some (Inr (model\<lparr>w_hidden := (w_hidden model)(layerIndex \<mapsto> m)\<rparr>, g'))))
           js (model, \<lambda>i. 3 / 4) = Some (Inr (model', \<lambda>i. 3 / 4))"
proof (induction js arbitrary: model)
  case Nil
  then show ?case by simp
next
  case (Cons l js)
  from RandMat_const [OF assms, of mean sd] obtain m where
    "RandMat a b mean sd (\<lambda>i. 3 / 4) = Some (Inr (m, \<lambda>i. 3 / 4))"
    by blast
  then show ?case
    using Cons.IH [of "model\<lparr>w_hidden := (w_hidden model)(l \<mapsto> m)\<rparr>"]
    by (simp del: fun_upd_apply)
qed

lemma createModel_const:
  assumes "input config = Fin (real k)"
  shows "\<exists>model. createModel config (\<lambda>i. 3 / 4) = Some (Inr (model, \<lambda>i. 3 / 4))"
proof -
  let ?sd = "Fin (8 / 10)"
  have m1: "Matrix_new (input config) (Fin 3) = Inr \<lparr>n = Fin (real k), d = Fin 3, w = replicate (k * 3) (Fin 0)\<rparr>"
    using Matrix_new_nat [of k 3] assms by simp
  have m2: "Matrix_new (Fin 3) (input config) = Inr \<lparr>n = Fin 3, d = Fin (real k), w = replicate (3 * k) (Fin 0)\<rparr>"
    using Matrix_new_nat [of 3 k] assms by simp
  have m3: "Matrix_new (input config) (input config) = Inr \<lparr>n = Fin (real k), d = Fin (real k), w = replicate (k * k) (Fin 0)\<rparr>"
    using Matrix_new_nat [of k k] assms by simp
  from RandMat_const [OF m1, of "Fin 0" ?sd] obtain win where
    win: "RandMat (input config) (Fin 3) (Fin 0) ?sd (\<lambda>i. 3 / 4) = Some (Inr (win, \<lambda>i. 3 / 4))"
    by blast
  from RandMat_const [OF m2, of "Fin 0" ?sd] obtain wout where
    wout: "RandMat (Fin 3) (input config) (Fin 0) ?sd (\<lambda>i. 3 / 4) = Some (Inr (wout, \<lambda>i. 3 / 4))"
    by blast
  from hidden_const [OF m3, of "Fin 0" ?sd "[0..<iters (hidden config)]"
      "\<lparr>w_in = win, w_out = wout, w_hidden = Map.empty\<rparr>"]
  show ?thesis
    using win wout by (simp add: createModel_def Let_def for_loopR_fold del: fun_upd_apply)
qed

lemma js_or_Fin [simp]: "js_or (Fin x) b = (if x = 0 then b else Fin x)"
  by (simp add: js_or_def)

lemma gaussians_length: "gaussians k g = Some (zs, g') \<Longrightarrow> length zs = k"
  by (induction k arbitrary: g zs) (auto split: option.splits)

lemma gaussians_add:
  "gaussians (a + b) g =
     (case gaussians a g of
        None \<Rightarrow> None
      | Some (zs, g1) \<Rightarrow>
          (case gaussians b g1 of None \<Rightarrow> None | Some (zs', g2) \<Rightarrow> Some (zs @ zs', g2)))"
  by (induction a arbitrary: g) (auto split: option.splits)

lemma fill_exact:
  assumes "a + k \<le> length (w m)"
  shows "foldR (\<lambda>i (matrix, g).
          case generateRandomNormal mean sd g of
            None \<Rightarrow> None
          | Some (v, g') \<Rightarrow> Some (Inr (matrix\<lparr>w := array_set (w matrix) (Fin (real i)) v\<rparr>, g')))
       [a..<a + k] (m, g)
     = (case gaussians k g of
          None \<Rightarrow> None
        | Some (zs, g') \<Rightarrow>
            Some (Inr (m\<lparr>w := take a (w m) @ map (\<lambda>z. mean + Fin z * sd) zs @ drop (a + k) (w m)\<rparr>, g')))"
  using assms
proof (induction k arbitrary: a m g)
  case 0
  then show ?case by simp
next
  case (Suc k)
  have upt: "[a..<Suc (a + k)] = a # [Suc a..<Suc (a + k)]"
    by (simp add: upt_conv_Cons)
  show ?case
  proof (cases "generateGaussianRandom g")
    case None
    then show ?thesis
      by (simp add: upt generateRandomNormal_def del: upt_Suc)
  next
    case (Some p)
    obtain z g1 where p: "p = (z, g1)" by (cases p)
    let ?m1 = "m\<lparr>w := (w m)[a := mean + Fin z * sd]\<rparr>"
    have len: "Suc a + k \<le> length (w ?m1)"
      using Suc.prems by simp
    have t: "take (Suc a) ((w m)[a := mean + Fin z * sd]) = take a (w m) @ [mean + Fin z * sd]"
      using Suc.prems by (simp add: take_Suc_conv_app_nth)
    show ?thesis
      using Suc.IH [OF len, of g1] Some p t
      by (simp add: upt generateRandomNormal_def array_set_nat del: upt_Suc split: option.splits)
  qed
qed

lemma fillRandn_exact:
  "fillRandn m mean sd g =
     (case gaussians (length (w m)) g of
        None \<Rightarrow> None
      | Some (zs, g') \<Rightarrow> Some (Inr (m\<lparr>w := map (\<lambda>z. mean + Fin z * sd) zs\<rparr>, g')))"
  using fill_exact [of 0 "length (w m)" m mean sd g]
  by (cases "gaussians (length (w m)) g") (auto simp: fillRandn_def for_loopR_fold)

lemma RandMat_exact:
  "RandMat rows cols mean sd g =
     (if negative_length (rows * cols) then Some (Inl RangeError)
      else case gaussians (buffer_length (rows * cols)) g of
             None \<Rightarrow> None
           | Some (zs, g') \<Rightarrow>
               Some (Inr (\<lparr>n = rows, d = cols,
                           w = map (\<lambda>z. js_or mean (Fin 0) + Fin z * js_or sd (Fin (8 / 100))) zs\<rparr>, g')))"
  by (simp add: RandMat_def Matrix_new_eq fillRandn_exact split: option.splits)

lemma times_number_commute: "a * b = b * (a::number)"
  by (simp add: times_number_def mult.commute split: number.splits)

lemma square_not_negative [simp]: "\<not> negative_length (a * a)"
proof (cases a)
  case NaN
  then show ?thesis by (simp add: negative_length_def times_number_def)
next
  case (Fin x)
  have "0 \<le> x * x" by simp
  then have "\<not> x * x \<le> - 1" by linarith
  then show ?thesis
    using Fin by (simp add: negative_length_def times_number_def)
qed

lemma foldR_append:
  "foldR f (xs @ ys) s =
     (case foldR f xs s of None \<Rightarrow> None | Some (Inl e) \<Rightarrow> Some (Inl e) | Some (Inr s') \<Rightarrow> foldR f ys s')"
  by (induction xs arbitrary: s) (auto split: option.splits sum.splits)

lemma hidden_exact:
  "foldR (\<lambda>layerIndex (model, g).
              bindR (RandMat a a mean sd g) (\<lambda>(m, g').
                Some (Inr (model\<lparr>w_hidden := (w_hidden model)(layerIndex \<mapsto> m)\<rparr>, g'))))
           [0..<h] (\<lparr>w_in = win, w_out = wout, w_hidden = Map.empty\<rparr>, g)
     = (case gaussians (h * buffer_length (a * a)) g of
          None \<Rightarrow> None
        | Some (zs, g') \<Rightarrow>
            Some (Inr (\<lparr>w_in = win, w_out = wout,
                        w_hidden = (\<lambda>i. if i < h
                           then Some \<lparr>n = a, d = a,
                                  w = map (\<lambda>z. js_or mean (Fin 0) + Fin z * js_or sd (Fin (8 / 100)))
                                        (take (buffer_length (a * a)) (drop (i * buffer_length (a * a)) zs))\<rparr>
                           else None)\<rparr>, g')))"
proof (induction h)
  case 0
  then show ?case by (simp add: fun_eq_iff)
next
  case (Suc h)
  let ?q = "buffer_length (a * a)"
  let ?f = "\<lambda>z. js_or mean (Fin 0) + Fin z * js_or sd (Fin (8 / 100))"
  have sp: "gaussians (?q + h * ?q) g =
     (case gaussians (h * ?q) g of
        None \<Rightarrow> None
      | Some (zs, g1) \<Rightarrow>
          (case gaussians ?q g1 of None \<Rightarrow> None | Some (zs', g2) \<Rightarrow> Some (zs @ zs', g2)))"
    using gaussians_add [of "h * ?q" ?q g] by (simp add: add.commute)
  show ?case
  proof (cases "gaussians (h * ?q) g")
    case None
    then show ?thesis
      using Suc.IH by (simp add: foldR_append sp)
  next
    case (Some p)
    obtain zs g1 where p: "p = (zs, g1)" by (cases p)
    have lzs: "length zs = h * ?q"
      using Some p by (simp add: gaussians_length)
    show ?thesis
    proof (cases "gaussians ?q g1")
      case None
      then show ?thesis
        using Suc.IH Some p by (simp add: foldR_append sp RandMat_exact)
    next
      case (Some p')
      obtain zs' g2 where p': "p' = (zs', g2)" by (cases p')
      have lzs': "length zs' = ?q"
        using Some p' by (simp add: gaussians_length)
      have old: "take ?q (drop (i * ?q) (zs @ zs')) = take ?q (drop (i * ?q) zs)" if "i < h" for i
      proof -
        have "Suc i * ?q \<le> h * ?q"
          using that by (intro mult_le_mono1) simp
        then have "i * ?q + ?q \<le> length zs"
          using lzs by simp
        then show ?thesis
          by simp
      qed
      have new: "take ?q (drop (h * ?q) (zs @ zs')) = zs'"
        using lzs lzs' by simp
      have "(\<lambda>i. if i < Suc h
                then Some \<lparr>n = a, d = a, w = map ?f (take ?q (drop (i * ?q) (zs @ zs')))\<rparr>
                else None)
          = (\<lambda>i. if i < h
                then Some \<lparr>n = a, d = a, w = map ?f (take ?q (drop (i * ?q) zs))\<rparr>
                else None)(h \<mapsto> \<lparr>n = a, d = a, w = map ?f zs'\<rparr>)"
        using old new by (auto simp: fun_eq_iff less_Suc_eq)
      then show ?thesis
        using Suc.IH \<open>gaussians (h * ?q) g = Some p\<close> p Some p'
        by (simp add: foldR_append sp RandMat_exact del: fun_upd_apply)
    qed
  qed
qed

lemma createModel_exact:
  "createModel config g =
     (if negative_length (input config * Fin 3) then Some (Inl RangeError)
      else case gaussians (sample_count config) g of
             None \<Rightarrow> None
           | Some (zs, g') \<Rightarrow> Some (Inr (sampled_model config zs, g')))"
proof (cases "negative_length (input config * Fin 3)")
  case True
  then show ?thesis
    by (simp add: createModel_def Let_def RandMat_exact)
next
  case False
  let ?a = "input config"
  let ?p = "buffer_length (?a * Fin 3)"
  let ?q = "buffer_length (?a * ?a)"
  let ?h = "iters (hidden config)"
  let ?sd = "Fin (8 / 10)"
  have c: "Fin 3 * ?a = ?a * Fin 3"
    by (rule times_number_commute)
  have sp: "gaussians (sample_count config) g =
     (case gaussians ?p g of
        None \<Rightarrow> None
      | Some (zs1, g1) \<Rightarrow>
          (case gaussians ?p g1 of
             None \<Rightarrow> None
           | Some (zs2, g2) \<Rightarrow>
               (case gaussians (?h * ?q) g2 of
                  None \<Rightarrow> None
                | Some (zs3, g3) \<Rightarrow> Some (zs1 @ zs2 @ zs3, g3))))"
    unfolding sample_count_def Let_def add.assoc
    by (subst gaussians_add, subst gaussians_add) (auto split: option.splits)
  have r1: "RandMat ?a (Fin 3) (Fin 0) ?sd t =
     (case gaussians ?p t of
        None \<Rightarrow> None
      | Some (zs, g') \<Rightarrow> Some (Inr (\<lparr>n = ?a, d = Fin 3, w = weights zs\<rparr>, g')))" for t
    using False by (simp add: RandMat_exact weights_def js_or_def split: option.splits)
  have r2: "RandMat (Fin 3) ?a (Fin 0) ?sd t =
     (case gaussians ?p t of
        None \<Rightarrow> None
      | Some (zs, g') \<Rightarrow> Some (Inr (\<lparr>n = Fin 3, d = ?a, w = weights zs\<rparr>, g')))" for t
    using False by (simp add: RandMat_exact weights_def js_or_def c split: option.splits)
  have wf: "map (\<lambda>z. js_or (Fin 0) (Fin 0) + Fin z * js_or ?sd (Fin (8 / 100))) xs = weights xs" for xs
    by (simp add: weights_def js_or_def)
  have cm: "createModel config g =
      bindR (RandMat ?a (Fin 3) (Fin 0) ?sd g) (\<lambda>(win, g1).
         bindR (RandMat (Fin 3) ?a (Fin 0) ?sd g1) (\<lambda>(wout, g2).
         foldR
           (\<lambda>layerIndex (model, g).
              bindR (RandMat ?a ?a (Fin 0) ?sd g) (\<lambda>(m, g').
                Some (Inr (model\<lparr>w_hidden := (w_hidden model)(layerIndex \<mapsto> m)\<rparr>, g'))))
           [0..<?h] (\<lparr>w_in = win, w_out = wout, w_hidden = Map.empty\<rparr>, g2)))"
    unfolding createModel_def Let_def for_loopR_fold ..
  show ?thesis
  proof (cases "gaussians ?p g")
    case None
    then show ?thesis
      using False unfolding cm r1 by (simp add: sp)
  next
    case (Some p1)
    obtain zs1 g1 where p1: "p1 = (zs1, g1)" by (cases p1)
    have l1: "length zs1 = ?p"
      using Some p1 by (simp add: gaussians_length)
    note s1 = Some
    show ?thesis
    proof (cases "gaussians ?p g1")
      case None
      then show ?thesis
        using False s1 p1 unfolding cm r1 r2 hidden_exact by (simp add: sp)
    next
      case (Some p2)
      obtain zs2 g2 where p2: "p2 = (zs2, g2)" by (cases p2)
      have l2: "length zs2 = ?p"
        using Some p2 by (simp add: gaussians_length)
      note s2 = Some
      show ?thesis
      proof (cases "gaussians (?h * ?q) g2")
        case None
        then show ?thesis
          using False s1 p1 s2 p2 unfolding cm r1 r2 hidden_exact
          by (simp add: sp del: fun_upd_apply)
      next
        case (Some p3)
        obtain zs3 g3 where p3: "p3 = (zs3, g3)" by (cases p3)
        have m: "sampled_model config (zs1 @ zs2 @ zs3)
            = \<lparr>w_in = \<lparr>n = ?a, d = Fin 3, w = weights zs1\<rparr>,
               w_out = \<lparr>n = Fin 3, d = ?a, w = weights zs2\<rparr>,
               w_hidden = (\<lambda>i. if i < ?h
                           then Some \<lparr>n = ?a, d = ?a, w = weights (take ?q (drop (i * ?q) zs3))\<rparr>
                           else None)\<rparr>"
          using l1 l2 by (simp add: sampled_model_def Let_def js_lt_iters fun_eq_iff)
        show ?thesis
          using False s1 p1 s2 p2 Some p3 unfolding cm r1 r2 hidden_exact wf
          by (simp add: sp m del: fun_upd_apply)
      qed
    qed
  qed
qed

lemma gaussians_const:
  "gaussians k (\<lambda>i. 3 / 4) = Some (replicate k gauss_three_quarters, \<lambda>i. 3 / 4)"
  by (induction k) (simp_all add: gauss_z34)

lemma weights_length [simp]: "length (weights zs) = length zs"
  by (simp add: weights_def)

lemma sampled_model_shapes:
  assumes k: "input config = Fin (real k)" and len: "length zs = sample_count config"
  shows "shaped (w_in (sampled_model config zs)) k 3 \<and> shaped (w_out (sampled_model config zs)) 3 k
     \<and> (\<forall>i wi. w_hidden (sampled_model config zs) i = Some wi \<longrightarrow> shaped wi k k)"
proof -
  let ?h = "iters (hidden config)"
  have "input config * Fin 3 = Fin (real (k * 3))"
    using k by (simp add: times_number_def)
  then have p: "buffer_length (input config * Fin 3) = k * 3"
    by (simp only: buffer_length_nat)
  have "input config * input config = Fin (real (k * k))"
    using k by (simp add: times_number_def)
  then have q: "buffer_length (input config * input config) = k * k"
    by (simp only: buffer_length_nat)
  have l: "length zs = k * 3 + k * 3 + ?h * (k * k)"
    using len by (simp add: sample_count_def Let_def p q)
  have M: "sampled_model config zs
      = \<lparr>w_in = \<lparr>n = input config, d = Fin 3, w = weights (take (k * 3) zs)\<rparr>,
         w_out = \<lparr>n = Fin 3, d = input config, w = weights (take (k * 3) (drop (k * 3) zs))\<rparr>,
         w_hidden = (\<lambda>i. if i < ?h
                         then Some \<lparr>n = input config, d = input config,
                                w = weights (take (k * k) (drop (k * 3 + k * 3 + i * (k * k)) zs))\<rparr>
                         else None)\<rparr>"
    unfolding sampled_model_def Let_def p q by (simp add: js_lt_iters)
  have b: "k * 3 + k * 3 + i * (k * k) + k * k \<le> length zs" if "i < ?h" for i
  proof -
    have "Suc i * (k * k) \<le> ?h * (k * k)"
      using that by (intro mult_le_mono1) simp
    then show ?thesis
      using l by simp
  qed
  have "shaped (w_in (sampled_model config zs)) k 3"
    unfolding M using l k by (simp add: shaped_def)
  moreover have "shaped (w_out (sampled_model config zs)) 3 k"
    unfolding M using l k by (simp add: shaped_def)
  moreover have "shaped wi k k" if "w_hidden (sampled_model config zs) i = Some wi" for i wi
  proof -
    from that have i: "i < ?h"
      and wi: "wi = \<lparr>n = input config, d = input config,
                     w = weights (take (k * k) (drop (k * 3 + k * 3 + i * (k * k)) zs))\<rparr>"
      unfolding M by (auto split: if_splits)
    show ?thesis
      unfolding wi using b [OF i] k by (simp add: shaped_def)
  qed
  ultimately show ?thesis
    by blast
qed

lemma createModel_ok:
  assumes "input config = Fin (real k)" and "createModel config g = Some (Inr (model, g'))"
  shows "model_ok model k (iters (hidden config))"
proof -
  from assms(2) obtain zs where zs: "gaussians (sample_count config) g = Some (zs, g')"
    and m: "model = sampled_model config zs"
    by (auto simp: createModel_exact split: if_splits option.splits)
  have len: "length zs = sample_count config"
    using zs by (rule gaussians_length)
  have "\<exists>wi. w_hidden model i = Some wi" if "i < iters (hidden config)" for i
    using that by (simp add: m sampled_model_def Let_def js_lt_iters)
  then show ?thesis
    using sampled_model_shapes [OF assms(1) len] unfolding m model_ok_def by blast
qed

text \<open>
  C5, as stated, fails.  With \<open>hidden = 3/2\<close> the loop of \<^verbatim>\<open>createModel\<close> runs for the layer
  indices 0 and 1: the model has two hidden matrices, not \<open>hidden\<close> many.  With
  \<open>input = -1\<close> \<^verbatim>\<open>createModel\<close> asks for a buffer of length \<open>-3\<close> and raises a
  \<^verbatim>\<open>RangeError\<close>: it samples no weight and returns no model.
\<close>

theorem createModel_hidden_counterexample:
  "createModel config_fractional_hidden (\<lambda>i. 3 / 4)
     = Some (Inr (\<lparr>w_in = \<lparr>n = Fin 1, d = Fin 3, w = [Fin (gauss_three_quarters * 4 / 5),
                       Fin (gauss_three_quarters * 4 / 5), Fin (gauss_three_quarters * 4 / 5)]\<rparr>,
                   w_out = \<lparr>n = Fin 3, d = Fin 1, w = [Fin (gauss_three_quarters * 4 / 5),
                       Fin (gauss_three_quarters * 4 / 5), Fin (gauss_three_quarters * 4 / 5)]\<rparr>,
                   w_hidden = [0 \<mapsto> \<lparr>n = Fin 1, d = Fin 1, w = [Fin (gauss_three_quarters * 4 / 5)]\<rparr>,
                               1 \<mapsto> \<lparr>n = Fin 1, d = Fin 1, w = [Fin (gauss_three_quarters * 4 / 5)]\<rparr>]\<rparr>,
                  \<lambda>i. 3 / 4))
   \<and> createModel config_negative_input (\<lambda>i. 3 / 4) = Some (Inl RangeError)"
proof -
  have p: "input config_fractional_hidden * Fin 3 = Fin (real 3)"
    "input config_fractional_hidden * input config_fractional_hidden = Fin (real 1)"
    by (simp_all add: config_fractional_hidden_def times_number_def)
  have "\<lceil>(3 / 2)::real\<rceil> = 2"
    by (rule ceiling_unique) simp_all
  then have h: "iters (hidden config_fractional_hidden) = 2"
    by (simp add: config_fractional_hidden_def iters_def)
  have sc: "sample_count config_fractional_hidden = 8"
    unfolding sample_count_def Let_def p h by simp
  let ?c = "Fin (gauss_three_quarters * 4 / 5)"
  let ?M = "sampled_model config_fractional_hidden (replicate 8 gauss_three_quarters)"
  have win: "w_in ?M = \<lparr>n = Fin 1, d = Fin 3, w = [?c, ?c, ?c]\<rparr>"
    unfolding sampled_model_def Let_def p
    by (simp add: weights_def plus_number_def times_number_def config_fractional_hidden_def
        numeral_3_eq_3)
  have wout: "w_out ?M = \<lparr>n = Fin 3, d = Fin 1, w = [?c, ?c, ?c]\<rparr>"
    unfolding sampled_model_def Let_def p
    by (simp add: weights_def plus_number_def times_number_def config_fractional_hidden_def
        numeral_3_eq_3)
  have whid: "w_hidden ?M i = [0 \<mapsto> \<lparr>n = Fin 1, d = Fin 1, w = [?c]\<rparr>,
                               1 \<mapsto> \<lparr>n = Fin 1, d = Fin 1, w = [?c]\<rparr>] i" for i
  proof -
    consider "i = 0" | "i = 1" | "2 \<le> i"
      by linarith
    then show ?thesis
    proof cases
      case 1
      then show ?thesis
        unfolding sampled_model_def Let_def p js_lt_iters h
        by (simp add: weights_def plus_number_def times_number_def config_fractional_hidden_def)
    next
      case 2
      then show ?thesis
        unfolding sampled_model_def Let_def p js_lt_iters h
        by (simp add: weights_def plus_number_def times_number_def config_fractional_hidden_def)
    next
      case 3
      then show ?thesis
        unfolding sampled_model_def Let_def p js_lt_iters h
        by simp
    qed
  qed
  have m: "?M
     = \<lparr>w_in = \<lparr>n = Fin 1, d = Fin 3, w = [?c, ?c, ?c]\<rparr>,
        w_out = \<lparr>n = Fin 3, d = Fin 1, w = [?c, ?c, ?c]\<rparr>,
        w_hidden = [0 \<mapsto> \<lparr>n = Fin 1, d = Fin 1, w = [?c]\<rparr>,
                    1 \<mapsto> \<lparr>n = Fin 1, d = Fin 1, w = [?c]\<rparr>]\<rparr>"
    by (rule Model.equality) (simp_all add: win wout whid fun_eq_iff del: fun_upd_apply)
  have a: "createModel config_fractional_hidden (\<lambda>i. 3 / 4)
      = Some (Inr (sampled_model config_fractional_hidden (replicate 8 gauss_three_quarters), \<lambda>i. 3 / 4))"
    unfolding createModel_exact p by (simp add: sc gaussians_const)
  have b: "createModel config_negative_input (\<lambda>i. 3 / 4) = Some (Inl RangeError)"
    by (simp add: createModel_exact config_negative_input_def negative_length_def times_number_def)
  from a b show ?thesis
    unfolding m by simp
qed

text \<open>
  C5, amended.  \<^verbatim>\<open>createModel\<close> raises a \<^verbatim>\<open>RangeError\<close> when \<open>input * 3 \<le> -1\<close>; otherwise
  it returns exactly when the Gaussian sampling returns for all the weights, and the
  model that it returns is \<open>sampled_model\<close>: every weight of every matrix is \<open>0 + z * 0.8\<close>
  for the Gaussian samples \<open>z\<close> in the order in which they are drawn (standard deviation
  0.8, not the default 0.08).  In the model returned \<^verbatim>\<open>w_in\<close> has the shape \<open>(input, 3)\<close>
  and \<^verbatim>\<open>w_out\<close> the shape \<open>(3, input)\<close>; there is one hidden matrix, of shape
  \<open>(input, input)\<close>, for every natural number below \<open>hidden\<close>, so exactly \<open>hidden\<close> of
  them, keyed \<open>0, ..., hidden - 1\<close>, when \<open>hidden\<close> is a natural number, and none when
  \<open>hidden = 0\<close>.
\<close>

theorem createModel_weights:
  "createModel config g =
     (if negative_length (input config * Fin 3) then Some (Inl RangeError)
      else case gaussians (sample_count config) g of
             None \<Rightarrow> None
           | Some (zs, g') \<Rightarrow> Some (Inr (sampled_model config zs, g')))
   \<and> (\<forall>model g'. createModel config g = Some (Inr (model, g')) \<longrightarrow>
          n (w_in model) = input config \<and> d (w_in model) = Fin 3
        \<and> n (w_out model) = Fin 3 \<and> d (w_out model) = input config
        \<and> dom (w_hidden model) = {i. js_lt (Fin (real i)) (hidden config)}
        \<and> (\<forall>i wi. w_hidden model i = Some wi \<longrightarrow> n wi = input config \<and> d wi = input config)
        \<and> (\<forall>h. hidden config = Fin (real h) \<longrightarrow>
              dom (w_hidden model) = {0..<h} \<and> card (dom (w_hidden model)) = h)
        \<and> (hidden config = Fin 0 \<longrightarrow> w_hidden model = Map.empty)
        \<and> (\<forall>k. input config = Fin (real k) \<longrightarrow>
              shaped (w_in model) k 3 \<and> shaped (w_out model) 3 k
              \<and> (\<forall>i wi. w_hidden model i = Some wi \<longrightarrow> shaped wi k k)))"
proof -
  have "n (w_in model) = input config \<and> d (w_in model) = Fin 3
        \<and> n (w_out model) = Fin 3 \<and> d (w_out model) = input config
        \<and> dom (w_hidden model) = {i. js_lt (Fin (real i)) (hidden config)}
        \<and> (\<forall>i wi. w_hidden model i = Some wi \<longrightarrow> n wi = input config \<and> d wi = input config)
        \<and> (\<forall>h. hidden config = Fin (real h) \<longrightarrow>
              dom (w_hidden model) = {0..<h} \<and> card (dom (w_hidden model)) = h)
        \<and> (hidden config = Fin 0 \<longrightarrow> w_hidden model = Map.empty)
        \<and> (\<forall>k. input config = Fin (real k) \<longrightarrow>
              shaped (w_in model) k 3 \<and> shaped (w_out model) 3 k
              \<and> (\<forall>i wi. w_hidden model i = Some wi \<longrightarrow> shaped wi k k))"
    if cm: "createModel config g = Some (Inr (model, g'))" for model g'
  proof -
    from cm obtain zs where zs: "gaussians (sample_count config) g = Some (zs, g')"
      and m: "model = sampled_model config zs"
      by (auto simp: createModel_exact split: if_splits option.splits)
    have len: "length zs = sample_count config"
      using zs by (rule gaussians_length)
    have a: "n (w_in model) = input config \<and> d (w_in model) = Fin 3
        \<and> n (w_out model) = Fin 3 \<and> d (w_out model) = input config"
      by (simp add: m sampled_model_def Let_def)
    have dom: "dom (w_hidden model) = {i. js_lt (Fin (real i)) (hidden config)}"
      by (auto simp: m sampled_model_def Let_def dom_def)
    have b: "n wi = input config \<and> d wi = input config" if "w_hidden model i = Some wi" for i wi
      using that by (auto simp: m sampled_model_def Let_def split: if_splits)
    have c: "dom (w_hidden model) = {0..<h} \<and> card (dom (w_hidden model)) = h"
      if "hidden config = Fin (real h)" for h
      using that by (auto simp: dom)
    have e: "w_hidden model = Map.empty" if "hidden config = Fin 0"
    proof -
      have "dom (w_hidden model) = {}"
        using that by (simp add: dom)
      then show ?thesis
        by simp
    qed
    have f: "shaped (w_in model) k 3 \<and> shaped (w_out model) 3 k
          \<and> (\<forall>i wi. w_hidden model i = Some wi \<longrightarrow> shaped wi k k)"
      if "input config = Fin (real k)" for k
      using sampled_model_shapes [OF that len] by (simp add: m)
    from a dom b c e f show ?thesis
      by blast
  qed
  then show ?thesis
    using createModel_exact [of config g] by blast
qed

theorem createModel_weights_witness:
  "createModel config_example (\<lambda>i. 3 / 4)
     = Some (Inr (sampled_model config_example (replicate 56 gauss_three_quarters), \<lambda>i. 3 / 4))
   \<and> w (w_in (sampled_model config_example (replicate 56 gauss_three_quarters)))
       = replicate 12 (Fin (gauss_three_quarters * 4 / 5))
   \<and> shaped (w_in (sampled_model config_example (replicate 56 gauss_three_quarters))) 4 3
   \<and> shaped (w_out (sampled_model config_example (replicate 56 gauss_three_quarters))) 3 4
   \<and> dom (w_hidden (sampled_model config_example (replicate 56 gauss_three_quarters))) = {0..<2}"
proof -
  have i: "input config_example = Fin (real 4)" and h: "hidden config_example = Fin (real 2)"
    by (simp_all add: config_example_def)
  have p: "input config_example * Fin 3 = Fin (real 12)"
    "input config_example * input config_example = Fin (real 16)"
    by (simp_all add: config_example_def times_number_def)
  have sc: "sample_count config_example = 56"
    unfolding sample_count_def Let_def p h by simp
  have nn: "\<not> negative_length (input config_example * Fin 3)"
    unfolding p by simp
  note t = createModel_weights [of config_example "\<lambda>i. 3 / 4"]
  have cm: "createModel config_example (\<lambda>i. 3 / 4)
     = Some (Inr (sampled_model config_example (replicate 56 gauss_three_quarters), \<lambda>i. 3 / 4))"
    using t [THEN conjunct1] by (simp add: nn sc gaussians_const)
  note r = t [THEN conjunct2, rule_format, OF cm]
  from r i h have "shaped (w_in (sampled_model config_example (replicate 56 gauss_three_quarters))) 4 3
   \<and> shaped (w_out (sampled_model config_example (replicate 56 gauss_three_quarters))) 3 4
   \<and> dom (w_hidden (sampled_model config_example (replicate 56 gauss_three_quarters))) = {0..<2}"
    by blast
  moreover have "w (w_in (sampled_model config_example (replicate 56 gauss_three_quarters)))
       = replicate 12 (Fin (gauss_three_quarters * 4 / 5))"
    unfolding sampled_model_def Let_def p
    by (simp add: weights_def plus_number_def times_number_def)
  ultimately show ?thesis
    using cm by simp
qed

lemma isNaN_plus [simp]: "isNaN (a + b) \<longleftrightarrow> isNaN a \<or> isNaN b"
  by (cases a; cases b) (simp_all add: plus_number_def)

lemma isNaN_times [simp]: "isNaN (a * b) \<longleftrightarrow> isNaN a \<or> isNaN b"
  by (cases a; cases b) (simp_all add: times_number_def)

lemma isNaN_zero [simp]: "\<not> isNaN 0"
  by (simp add: zero_number_def)

lemma isNaN_tanh [simp]: "isNaN (Math_tanh a) \<longleftrightarrow> isNaN a"
  by (cases a) simp_all

section \<open>The forward pass on degenerate input sizes\<close>

lemma ceil_half: "\<lceil>(1 / 2)::real\<rceil> = 1"
  by (rule ceiling_unique) simp_all

lemma iters_0 [simp]: "iters (Fin 0) = 0"
  by (simp add: iters_def)

lemma iters_1 [simp]: "iters (Fin 1) = 1"
  by (simp add: iters_def)

lemma iters_NaN [simp]: "iters NaN = 0"
  by (simp add: iters_def)

lemma iters_half [simp]: "iters (Fin (1 / 2)) = 1"
  by (simp add: iters_def ceil_half)

lemma fill_one:
  "fillRandn \<lparr>n = a, d = b, w = [Fin 0]\<rparr> (Fin 0) (Fin s) (\<lambda>i. 3 / 4)
    = Some (Inr (\<lparr>n = a, d = b, w = [Fin (gauss_three_quarters * s)]\<rparr>, \<lambda>i. 3 / 4))"
  by (simp add: fillRandn_def for_loopR_fold generateRandomNormal_def gauss_z34
      array_set_def array_index_def plus_number_def times_number_def)

lemma fill_none:
  "fillRandn \<lparr>n = a, d = b, w = []\<rparr> mean sd g = Some (Inr (\<lparr>n = a, d = b, w = []\<rparr>, g))"
  by (simp add: fillRandn_def for_loopR_fold)

lemma createModel_half:
  "createModel config_half_input (\<lambda>i. 3 / 4)
     = Some (Inr (\<lparr>w_in = \<lparr>n = Fin (1 / 2), d = Fin 3, w = [Fin (gauss_three_quarters * 4 / 5)]\<rparr>,
                   w_out = \<lparr>n = Fin 3, d = Fin (1 / 2), w = [Fin (gauss_three_quarters * 4 / 5)]\<rparr>,
                   w_hidden = Map.empty\<rparr>, \<lambda>i. 3 / 4))"
proof -
  have "Matrix_new (Fin (1 / 2)) (Fin 3) = Inr \<lparr>n = Fin (1 / 2), d = Fin 3, w = [Fin 0]\<rparr>"
    and "Matrix_new (Fin 3) (Fin (1 / 2)) = Inr \<lparr>n = Fin 3, d = Fin (1 / 2), w = [Fin 0]\<rparr>"
    by (simp_all add: Matrix_new_def zeros_def Float64Array_new_def ToIndex_def times_number_def)
  then show ?thesis
    by (simp add: createModel_def Let_def config_half_input_def RandMat_def fill_one for_loopR_fold)
qed

lemma createModel_nan:
  "createModel config_nan_input (\<lambda>i. 3 / 4)
     = Some (Inr (\<lparr>w_in = \<lparr>n = NaN, d = Fin 3, w = []\<rparr>,
                   w_out = \<lparr>n = Fin 3, d = NaN, w = []\<rparr>,
                   w_hidden = Map.empty\<rparr>, \<lambda>i. 3 / 4))"
proof -
  have "Matrix_new NaN (Fin 3) = Inr \<lparr>n = NaN, d = Fin 3, w = []\<rparr>"
    and "Matrix_new (Fin 3) NaN = Inr \<lparr>n = Fin 3, d = NaN, w = []\<rparr>"
    by (simp_all add: Matrix_new_def zeros_def times_number_def)
  then show ?thesis
    by (simp add: createModel_def Let_def config_nan_input_def RandMat_def fill_none for_loopR_fold)
qed

lemma array_Nil [simp]: "array_set [] ix v = []" "array_get [] ix = None"
  by (simp_all add: array_set_def array_get_def array_index_def split: number.splits)

lemma NaN_arith [simp]: "a * NaN = NaN" "NaN * a = NaN" "a + NaN = NaN" "NaN + a = NaN"
  by (simp_all add: times_number_def plus_number_def split: number.splits)

lemma upt_3: "[0..<3] = [0, 1, 2]"
  by (simp add: upt_rec)

lemma sig_NaN [simp]: "sig NaN = NaN"
  by (simp add: sig_def uminus_number_def divide_number_def)

lemma forward_half:
  "forwardNetwork config_half_input
     \<lparr>w_in = \<lparr>n = Fin (1 / 2), d = Fin 3, w = [Fin (gauss_three_quarters * 4 / 5)]\<rparr>,
      w_out = \<lparr>n = Fin 3, d = Fin (1 / 2), w = [Fin (gauss_three_quarters * 4 / 5)]\<rparr>,
      w_hidden = Map.empty\<rparr> (Fin 0) (Fin 0)
   = Inr \<lparr>n = Fin 3, d = Fin 1, w = [NaN, NaN, NaN]\<rparr>"
proof -
  let ?win = "\<lparr>n = Fin (1 / 2), d = Fin 3, w = [Fin (gauss_three_quarters * 4 / 5)]\<rparr>"
  let ?wout = "\<lparr>n = Fin 3, d = Fin (1 / 2), w = [Fin (gauss_three_quarters * 4 / 5)]\<rparr>"
  let ?v = "\<lparr>n = Fin 3, d = Fin 1, w = [Fin 0, Fin 0, Fin 1]\<rparr>"
  let ?e = "\<lparr>n = Fin (1 / 2), d = Fin 1, w = []\<rparr>"
  have mn1: "Matrix_new (Fin (1 / 2)) (Fin 1) = Inr ?e"
    by (simp add: Matrix_new_def zeros_def Float64Array_new_def ToIndex_def times_number_def)
  have mn3: "Matrix_new (Fin 3) (Fin 1) = Inr \<lparr>n = Fin 3, d = Fin 1, w = [Fin 0, Fin 0, Fin 0]\<rparr>"
    using Matrix_new_nat [of 3 1] by (simp add: numeral_3_eq_3)
  have s1: "matrixMul ?win ?v = Inr ?e"
    by (simp add: matrixMul_def mn1 for_loop_fold')
  have s2: "tanh_m ?e = Inr ?e"
    by (simp add: tanh_m_def mn1 for_loop_fold')
  have dot: "dot_loop ?wout ?e i 0 = NaN" for i
    by (simp add: dot_loop_def for_loop_fold')
  have s3: "matrixMul ?wout ?e = Inr \<lparr>n = Fin 3, d = Fin 1, w = [NaN, NaN, NaN]\<rparr>"
    by (simp add: matrixMul_def mn3 for_loop_fold' upt_3 dot array_set_def array_index_def
        times_number_def plus_number_def)
  have s4: "sigmoid \<lparr>n = Fin 3, d = Fin 1, w = [NaN, NaN, NaN]\<rparr>
      = Inr \<lparr>n = Fin 3, d = Fin 1, w = [NaN, NaN, NaN]\<rparr>"
    by (simp add: sigmoid_def mn3 for_loop_fold' upt_3 array_set_def array_get_def array_index_def)
  show ?thesis
    unfolding forwardNetwork_def input_vector
    by (simp add: s1 s2 s3 s4 config_half_input_def for_loopE_fold)
qed

lemma forward_nan:
  "forwardNetwork config_nan_input
     \<lparr>w_in = \<lparr>n = NaN, d = Fin 3, w = []\<rparr>, w_out = \<lparr>n = Fin 3, d = NaN, w = []\<rparr>,
      w_hidden = Map.empty\<rparr> (Fin 0) (Fin 0)
   = Inl DimensionError"
proof -
  let ?win = "\<lparr>n = NaN, d = Fin 3, w = []\<rparr>"
  let ?v = "\<lparr>n = Fin 3, d = Fin 1, w = [Fin 0, Fin 0, Fin 1]\<rparr>"
  let ?e = "\<lparr>n = NaN, d = Fin 1, w = []\<rparr>"
  have mn1: "Matrix_new NaN (Fin 1) = Inr ?e"
    by (simp add: Matrix_new_def zeros_def times_number_def)
  have s1: "matrixMul ?win ?v = Inr ?e"
    by (simp add: matrixMul_def mn1 for_loop_fold')
  have s2: "tanh_m ?e = Inr ?e"
    by (simp add: tanh_m_def mn1 for_loop_fold')
  have s3: "matrixMul \<lparr>n = Fin 3, d = NaN, w = []\<rparr> ?e = Inl DimensionError"
    by (simp add: matrixMul_def)
  show ?thesis
    unfolding forwardNetwork_def input_vector
    by (simp add: s1 s2 s3 config_nan_input_def for_loopE_fold)
qed

text \<open>
  C1, as stated, fails.  With \<open>input = 1/2\<close> the model that \<^verbatim>\<open>createModel\<close> builds (on the
  random source whose draws are all \<open>3/4\<close>) has one-element buffers, the forward pass
  reads them out of range and returns three \<^verbatim>\<open>NaN\<close>s; with \<open>input = NaN\<close> the model has
  empty buffers and the forward pass raises the dimension error, since \<^verbatim>\<open>NaN !== NaN\<close>.
\<close>

theorem forwardNetwork_input_counterexample:
  "createModel config_half_input (\<lambda>i. 3 / 4)
     = Some (Inr (\<lparr>w_in = \<lparr>n = Fin (1 / 2), d = Fin 3, w = [Fin (gauss_three_quarters * 4 / 5)]\<rparr>,
                   w_out = \<lparr>n = Fin 3, d = Fin (1 / 2), w = [Fin (gauss_three_quarters * 4 / 5)]\<rparr>,
                   w_hidden = Map.empty\<rparr>, \<lambda>i. 3 / 4))
   \<and> forwardNetwork config_half_input
         \<lparr>w_in = \<lparr>n = Fin (1 / 2), d = Fin 3, w = [Fin (gauss_three_quarters * 4 / 5)]\<rparr>,
          w_out = \<lparr>n = Fin 3, d = Fin (1 / 2), w = [Fin (gauss_three_quarters * 4 / 5)]\<rparr>,
          w_hidden = Map.empty\<rparr> (Fin 0) (Fin 0)
       = Inr \<lparr>n = Fin 3, d = Fin 1, w = [NaN, NaN, NaN]\<rparr>
   \<and> createModel config_nan_input (\<lambda>i. 3 / 4)
     = Some (Inr (\<lparr>w_in = \<lparr>n = NaN, d = Fin 3, w = []\<rparr>,
                   w_out = \<lparr>n = Fin 3, d = NaN, w = []\<rparr>,
                   w_hidden = Map.empty\<rparr>, \<lambda>i. 3 / 4))
   \<and> forwardNetwork config_nan_input
         \<lparr>w_in = \<lparr>n = NaN, d = Fin 3, w = []\<rparr>, w_out = \<lparr>n = Fin 3, d = NaN, w = []\<rparr>,
          w_hidden = Map.empty\<rparr> (Fin 0) (Fin 0)
       = Inl DimensionError"
  using createModel_half forward_half createModel_nan forward_nan by simp

section \<open>The forward pass on the models that createModel builds\<close>

lemma length_array_set: "length (array_set xs ix v) = length xs"
  by (simp add: array_set_def split: option.splits)

lemma set_array_set: "set (array_set xs ix v) \<subseteq> insert v (set xs)"
  using set_update_subset_insert [of xs _ v]
  by (auto simp: array_set_def split: option.splits)

lemma fold_invariant:
  assumes "I s" and "\<And>x s. I s \<Longrightarrow> I (f x s)"
  shows "I (fold f xs s)"
  using assms(1) by (induction xs arbitrary: s) (simp_all add: assms(2))

lemma foldE_invariant:
  assumes "foldE f xs s = Inr s'" and "I s" and "\<And>x s s'. I s \<Longrightarrow> f x s = Inr s' \<Longrightarrow> I s'"
  shows "I s'"
  using assms(1,2)
proof (induction xs arbitrary: s)
  case Nil
  then show ?case by simp
next
  case (Cons x xs)
  from Cons.prems(1) obtain s1 where s1: "f x s = Inr s1" and rest: "foldE f xs s1 = Inr s'"
    by (cases "f x s") auto
  from assms(3) [OF Cons.prems(2) s1] have "I s1" .
  from Cons.IH [OF rest this] show ?case .
qed

lemma bindE_Inr: "bindE m f = Inr r \<Longrightarrow> \<exists>v. m = Inr v \<and> f v = Inr r"
  by (cases m) simp_all

lemma sig_unit_or_NaN: "unit_or_NaN (sig a)"
proof (cases a)
  case NaN
  then show ?thesis by (simp add: unit_or_NaN_def)
next
  case (Fin x)
  have pos: "0 < 1 + exp (- x)"
    by (simp add: add_pos_pos)
  have "sig a = Fin (1 / (1 + exp (- x)))"
    using Fin pos by (simp add: sig_def divide_number_def plus_number_def uminus_number_def)
  moreover have "0 \<le> 1 / (1 + exp (- x))"
    using pos by simp
  moreover have "1 / (1 + exp (- x)) \<le> 1"
    using pos by (simp add: divide_le_eq)
  ultimately show ?thesis
    by (simp add: unit_or_NaN_def)
qed

lemma unit_or_NaN_zero: "unit_or_NaN (Fin 0)"
  by (simp add: unit_or_NaN_def)

lemma matrixMul_fields:
  assumes "matrixMul m1 m2 = Inr out"
  shows "n out = n m1 \<and> d out = d m2"
proof -
  from assms obtain out0 where new: "Matrix_new (n m1) (d m2) = Inr out0"
    and out: "out = fold (\<lambda>i out. fold
                        (\<lambda>j out. out\<lparr>w := array_set (w out) (d m2 * Fin (real i) + Fin (real j))
                                             (dot_loop m1 m2 i j)\<rparr>)
                        [0..<iters (d m2)] out) [0..<iters (n m1)] out0"
    by (cases "Matrix_new (n m1) (d m2)")
      (auto simp: matrixMul_def Let_def for_loop_fold' split: if_splits)
  from new have "n out0 = n m1 \<and> d out0 = d m2"
    by (auto simp: Matrix_new_eq split: if_splits)
  then show ?thesis
    unfolding out
    by (intro fold_invariant [where I = "\<lambda>out. n out = n m1 \<and> d out = d m2"]) simp_all
qed

lemma elementwise_fields:
  assumes "bindE (Matrix_new (n m) (d m)) (\<lambda>out.
       Inr (for_loop 0 (Fin (real (length (w m))))
              (\<lambda>i out. out\<lparr>w := array_set (w out) (Fin (real i))
                                   (h (to_number (array_get (w m) (Fin (real i)))))\<rparr>)
              out)) = Inr out"
    and "\<And>a. P (h a)" and "P (Fin 0)"
  shows "n out = n m \<and> d out = d m \<and> length (w out) = buffer_length (n m * d m)
     \<and> (\<forall>v\<in>set (w out). P v)"
proof -
  from bindE_Inr [OF assms(1)] obtain out0 where new: "Matrix_new (n m) (d m) = Inr out0"
    and out: "out = fold (\<lambda>i out. out\<lparr>w := array_set (w out) (Fin (real i))
                                   (h (to_number (array_get (w m) (Fin (real i)))))\<rparr>)
                 [0..<length (w m)] out0"
    by (auto simp: for_loop_fold')
  let ?I = "\<lambda>out. n out = n m \<and> d out = d m \<and> length (w out) = buffer_length (n m * d m)
     \<and> (\<forall>v\<in>set (w out). P v)"
  from new have "?I out0"
    using assms(3) by (auto simp: Matrix_new_eq split: if_splits)
  then show ?thesis
    unfolding out
  proof (rule fold_invariant [where I = ?I])
    fix i :: nat and s :: Matrix
    assume I: "?I s"
    let ?v = "h (to_number (array_get (w m) (Fin (real i))))"
    have "set (array_set (w s) (Fin (real i)) ?v) \<subseteq> insert ?v (set (w s))"
      by (rule set_array_set)
    then have "\<forall>v\<in>set (array_set (w s) (Fin (real i)) ?v). P v"
      using I assms(2) by auto
    then show "?I (s\<lparr>w := array_set (w s) (Fin (real i)) ?v\<rparr>)"
      using I by (simp add: length_array_set)
  qed
qed

lemma tanh_m_fields:
  assumes "tanh_m m = Inr out"
  shows "n out = n m \<and> d out = d m"
  using elementwise_fields [where P = "\<lambda>v. True" and h = Math_tanh, OF assms [unfolded tanh_m_def]]
  by simp

lemma sigmoid_fields:
  assumes "sigmoid m = Inr out"
  shows "n out = n m \<and> d out = d m \<and> length (w out) = buffer_length (n m * d m)
     \<and> (\<forall>v\<in>set (w out). unit_or_NaN v)"
  by (rule elementwise_fields [where h = sig, OF assms [unfolded sigmoid_def]
        sig_unit_or_NaN unit_or_NaN_zero])

lemma forwardNetwork_fields:
  assumes nw: "n (w_out model) = Fin 3" and fw: "forwardNetwork config model x y = Inr out"
  shows "n out = Fin 3 \<and> d out = Fin 1 \<and> length (w out) = 3 \<and> (\<forall>v\<in>set (w out). unit_or_NaN v)"
proof -
  let ?v = "\<lparr>n = Fin 3, d = Fin 1, w = [x, y, Fin 1]\<rparr>"
  let ?step = "\<lambda>i out. case w_hidden model i of
                          None \<Rightarrow> Inl TypeError
                        | Some wi \<Rightarrow> bindE (matrixMul wi out) tanh_m"
  from fw have "bindE (bindE (matrixMul (w_in model) ?v) tanh_m) (\<lambda>out.
     bindE (foldE ?step [0..<iters (hidden config)] out) (\<lambda>out.
     bindE (matrixMul (w_out model) out) sigmoid)) = Inr out"
    unfolding forwardNetwork_def input_vector for_loopE_fold .
  then obtain h1 h2 where
    s1: "bindE (matrixMul (w_in model) ?v) tanh_m = Inr h1"
    and s2: "foldE ?step [0..<iters (hidden config)] h1 = Inr h2"
    and s3: "bindE (matrixMul (w_out model) h2) sigmoid = Inr out"
    by (blast dest: bindE_Inr)
  have layer: "d b = d a" if "bindE (matrixMul m a) tanh_m = Inr b" for m a b
  proof -
    from bindE_Inr [OF that] obtain c where "matrixMul m a = Inr c" "tanh_m c = Inr b"
      by blast
    then show ?thesis
      using matrixMul_fields [of m a c] tanh_m_fields [of c b] by simp
  qed
  have d1: "d h1 = Fin 1"
    using layer [OF s1] by simp
  have d2: "d h2 = Fin 1"
  proof (rule foldE_invariant [OF s2, where I = "\<lambda>out. d out = Fin 1"])
    show "d h1 = Fin 1" by (rule d1)
  next
    fix i a b
    assume "d a = Fin 1" and "?step i a = Inr b"
    then show "d b = Fin 1"
      using layer [of _ a b] by (cases "w_hidden model i") simp_all
  qed
  from bindE_Inr [OF s3] obtain c where c: "matrixMul (w_out model) h2 = Inr c"
    and sg: "sigmoid c = Inr out"
    by blast
  have "n c = Fin 3" "d c = Fin 1"
    using matrixMul_fields [OF c] nw d2 by simp_all
  moreover have "buffer_length (Fin 3 * Fin 1) = 3"
    by (simp add: times_number_def)
  ultimately show ?thesis
    using sigmoid_fields [OF sg] by simp
qed

lemma createModel_w_out:
  assumes "createModel config g = Some (Inr (model, g'))"
  shows "n (w_out model) = Fin 3"
  using assms
  by (auto simp: createModel_exact sampled_model_def Let_def split: if_splits option.splits)

text \<open>
  C1, amended.  For a configuration whose \<open>input\<close> is a natural number, every model
  produced by \<^verbatim>\<open>createModel\<close> and all \<open>x\<close> and \<open>y\<close>, the forward pass returns the \<open>(3, 1)\<close>
  matrix of the specification's layers (\<open>forward_spec\<close>): \<open>tanh\<close> of the input matrix
  applied to \<open>(x, y, 1)\<close>, then \<open>tanh\<close> of the hidden matrices \<open>0, 1, ...\<close> below \<open>hidden\<close>
  in this order, then the sigmoid of the output matrix.  For every configuration,
  whenever the forward pass on a model produced by \<^verbatim>\<open>createModel\<close> returns, it returns a
  matrix of shape \<open>(3, 1)\<close> with three values, each of them \<^verbatim>\<open>NaN\<close> or in the closed
  interval \<open>[0, 1]\<close>.
\<close>

theorem forwardNetwork_layers:
  assumes "createModel config g = Some (Inr (model, g'))"
  shows "(\<forall>k. input config = Fin (real k) \<longrightarrow>
            forwardNetwork config model x y
              = Inr \<lparr>n = Fin 3, d = Fin 1, w = forward_spec config model x y\<rparr>)
     \<and> (\<forall>out. forwardNetwork config model x y = Inr out \<longrightarrow>
            n out = Fin 3 \<and> d out = Fin 1 \<and> length (w out) = 3
            \<and> (\<forall>v\<in>set (w out). unit_or_NaN v))"
proof -
  have "forwardNetwork config model x y
      = Inr \<lparr>n = Fin 3, d = Fin 1, w = forward_spec config model x y\<rparr>"
    if "input config = Fin (real k)" for k
    using createModel_ok [OF that assms] by (rule forwardNetwork_ok)
  moreover have "n out = Fin 3 \<and> d out = Fin 1 \<and> length (w out) = 3
            \<and> (\<forall>v\<in>set (w out). unit_or_NaN v)"
    if "forwardNetwork config model x y = Inr out" for out
    using createModel_w_out [OF assms] that by (rule forwardNetwork_fields)
  ultimately show ?thesis
    by blast
qed

theorem forwardNetwork_layers_witness:
  "createModel config_example (\<lambda>i. 3 / 4)
       = Some (Inr (sampled_model config_example (replicate 56 gauss_three_quarters), \<lambda>i. 3 / 4))
   \<and> input config_example = Fin (real 4)
   \<and> forwardNetwork config_example (sampled_model config_example (replicate 56 gauss_three_quarters))
         (Fin (1 / 2)) (Fin 0)
       = Inr \<lparr>n = Fin 3, d = Fin 1,
              w = forward_spec config_example
                    (sampled_model config_example (replicate 56 gauss_three_quarters))
                    (Fin (1 / 2)) (Fin 0)\<rparr>
   \<and> length (forward_spec config_example
                (sampled_model config_example (replicate 56 gauss_three_quarters))
                (Fin (1 / 2)) (Fin 0)) = 3
   \<and> unit_or_NaN (forward_spec config_example
                (sampled_model config_example (replicate 56 gauss_three_quarters))
                (Fin (1 / 2)) (Fin 0) ! 0)
   \<and> unit_or_NaN NaN"
proof -
  let ?M = "sampled_model config_example (replicate 56 gauss_three_quarters)"
  let ?F = "forward_spec config_example ?M (Fin (1 / 2)) (Fin 0)"
  have i: "input config_example = Fin (real 4)" and h: "hidden config_example = Fin (real 2)"
    by (simp_all add: config_example_def)
  have p: "input config_example * Fin 3 = Fin (real 12)"
    "input config_example * input config_example = Fin (real 16)"
    by (simp_all add: config_example_def times_number_def)
  have sc: "sample_count config_example = 56"
    unfolding sample_count_def Let_def p h by simp
  have nn: "\<not> negative_length (input config_example * Fin 3)"
    unfolding p by simp
  have cm: "createModel config_example (\<lambda>i. 3 / 4) = Some (Inr (?M, \<lambda>i. 3 / 4))"
    by (simp add: createModel_exact nn sc gaussians_const)
  note t = forwardNetwork_layers [OF cm, of "Fin (1 / 2)" "Fin 0"]
  from t i have fw: "forwardNetwork config_example ?M (Fin (1 / 2)) (Fin 0)
      = Inr \<lparr>n = Fin 3, d = Fin 1, w = ?F\<rparr>"
    by blast
  with t have "length ?F = 3 \<and> (\<forall>v\<in>set ?F. unit_or_NaN v)"
    by simp
  then have "length ?F = 3" "unit_or_NaN (?F ! 0)"
    by simp_all
  moreover have "unit_or_NaN NaN"
    by (simp add: unit_or_NaN_def)
  ultimately show ?thesis
    using cm i fw by simp
qed

lemma hidden_layers_length:
  assumes "\<forall>i\<in>set js. \<exists>wi. w_hidden model i = Some wi \<and> shaped wi k k" and "length v = k"
  shows "length (fold (\<lambda>i v. layer Math_tanh (the (w_hidden model i)) v) js v) = k"
  using assms
proof (induction js arbitrary: v)
  case Nil
  then show ?case by simp
next
  case (Cons i js)
  then obtain wi where "w_hidden model i = Some wi" "shaped wi k k"
    by auto
  then have "length (layer Math_tanh (the (w_hidden model i)) v) = k"
    by (simp add: length_layer shaped_def)
  then show ?case
    using Cons by simp
qed

lemma sig_0: "sig 0 = Fin (1 / 2)"
  by (simp add: sig_def zero_number_def uminus_number_def plus_number_def divide_number_def)

text \<open>
  C10.  With \<open>input = 0\<close>, for every model produced by \<^verbatim>\<open>createModel\<close> and all \<open>x\<close> and \<open>y\<close>
  (\<^verbatim>\<open>NaN\<close> included), the forward pass returns the \<open>(3, 1)\<close> matrix whose three entries
  are exactly \<open>1/2\<close>: the dot products of the output layer are empty sums.
\<close>

theorem forwardNetwork_zero_input:
  assumes "input config = Fin 0" and "createModel config g = Some (Inr (model, g'))"
  shows "forwardNetwork config model x y
     = Inr \<lparr>n = Fin 3, d = Fin 1, w = [Fin (1 / 2), Fin (1 / 2), Fin (1 / 2)]\<rparr>"
proof -
  have i: "input config = Fin (real 0)"
    using assms(1) by simp
  from createModel_ok [OF i assms(2)] have ok: "model_ok model 0 (iters (hidden config))"
    by simp
  let ?h2 = "fold (\<lambda>i v. layer Math_tanh (the (w_hidden model i)) v)
               [0..<iters (hidden config)] (layer Math_tanh (w_in model) [x, y, Fin 1])"
  have win: "shaped (w_in model) 0 3" and wout: "shaped (w_out model) 3 0"
    and hid: "\<forall>i\<in>set [0..<iters (hidden config)]. \<exists>wi. w_hidden model i = Some wi \<and> shaped wi 0 0"
    using ok by (simp_all add: model_ok_def)
  have "length (layer Math_tanh (w_in model) [x, y, Fin 1]) = 0"
    using win by (simp add: length_layer shaped_def)
  from hidden_layers_length [OF hid this] have h2: "?h2 = []"
    by simp
  have "iters (n (w_out model)) = 3"
    using wout by (simp add: shaped_def)
  then have "layer sig (w_out model) [] = [Fin (1 / 2), Fin (1 / 2), Fin (1 / 2)]"
    by (simp add: layer_def mat_vec_def dot_product_def upt_3 sig_0)
  moreover have "forward_spec config model x y = layer sig (w_out model) ?h2"
    by (simp add: forward_spec_def)
  ultimately have "forward_spec config model x y = [Fin (1 / 2), Fin (1 / 2), Fin (1 / 2)]"
    by (simp only: h2)
  with forwardNetwork_ok [OF ok, of x y] show ?thesis
    by simp
qed

theorem forwardNetwork_zero_input_witness:
  "\<exists>model g'. input config_zero_input = Fin 0
     \<and> createModel config_zero_input (\<lambda>i. 3 / 4) = Some (Inr (model, g'))
     \<and> forwardNetwork config_zero_input model (Fin 7) NaN
         = Inr \<lparr>n = Fin 3, d = Fin 1, w = [Fin (1 / 2), Fin (1 / 2), Fin (1 / 2)]\<rparr>"
proof -
  have i: "input config_zero_input = Fin 0"
    by (simp add: config_zero_input_def)
  then have "input config_zero_input = Fin (real 0)"
    by simp
  from createModel_const [OF this] obtain model where
    m: "createModel config_zero_input (\<lambda>i. 3 / 4) = Some (Inr (model, \<lambda>i. 3 / 4))"
    by blast
  from forwardNetwork_zero_input [OF i m, of "Fin 7" NaN] i m show ?thesis
    by blast
qed

section \<open>The colour of a pixel: properties\<close>

lemma clamp_channel:
  "Math_min (Fin 255) (Math_max (Fin 0) ((act + Fin (noise_value a)) * mx)) = channel act a mx"
  by (cases "(act + Fin (noise_value a)) * mx") (simp_all add: channel_def)

lemma getColorAt_channels:
  assumes "forwardNetwork config model x y = Inr out"
  shows "getColorAt config model x y g = Inr (channels config out g, \<lambda>i. g (i + 3))"
proof -
  have n: "noise t = (Fin (noise_value (t 0)), \<lambda>i. t (Suc i))" for t
    by (simp add: noise_def Math_random_def noise_value_def times_number_def minus_number_def)
  have a: "to_number (array_get (w out) (Fin 0)) = activation out 0"
    "to_number (array_get (w out) (Fin 1)) = activation out 1"
    "to_number (array_get (w out) (Fin 2)) = activation out 2"
    by (simp_all add: activation_def)
  show ?thesis
    using assms
    by (simp add: getColorAt_def n a clamp_channel channels_def Let_def numeral_3_eq_3 numeral_2_eq_2)
qed

lemma getColorAt_error:
  "forwardNetwork config model x y = Inl e \<Longrightarrow> getColorAt config model x y g = Inl e"
  by (simp add: getColorAt_def)

lemma noise_value_range: "0 \<le> a \<Longrightarrow> a < 1 \<Longrightarrow> - (3 / 100) \<le> noise_value a \<and> noise_value a < 3 / 100"
  by (simp add: noise_value_def)

lemma channel_range: "channel act a mx = Fin t \<Longrightarrow> 0 \<le> t \<and> t \<le> 255"
  by (cases "(act + Fin (noise_value a)) * mx") (auto simp: channel_def)

text \<open>
  C2, amended.  When the forward pass raises, \<^verbatim>\<open>getColorAt\<close> raises the same error.  When it
  returns, \<^verbatim>\<open>getColorAt\<close> takes three successive draws, one for each channel, adds the
  noise \<open>(draw * 2 - 1) * 0.03\<close>, which lies in \<open>[-0.03, 0.03)\<close> for a draw in \<open>[0, 1)\<close>, to
  the activation before it multiplies by the channel's maximum, and returns the product
  clamped to \<open>[0, 255]\<close>; the channel is \<^verbatim>\<open>NaN\<close> exactly when this product is \<^verbatim>\<open>NaN\<close>.  The
  alpha component is 255.
\<close>

theorem getColorAt_noise_clamp:
  "(\<forall>e. forwardNetwork config model x y = Inl e \<longrightarrow> getColorAt config model x y g = Inl e)
   \<and> (\<forall>out. forwardNetwork config model x y = Inr out \<longrightarrow>
         getColorAt config model x y g
           = Inr ((channel (activation out 0) (g 0) (maxR config),
                   channel (activation out 1) (g 1) (maxG config),
                   channel (activation out 2) (g 2) (maxB config),
                   Fin 255), \<lambda>i. g (i + 3)))
   \<and> (0 \<le> a \<and> a < 1 \<longrightarrow> - (3 / 100) \<le> noise_value a \<and> noise_value a < 3 / 100)
   \<and> (\<forall>p. (act + Fin (noise_value a)) * mx = Fin p \<longrightarrow>
         channel act a mx = Fin (min 255 (max 0 p)))
   \<and> (channel act a mx = NaN \<longleftrightarrow> isNaN ((act + Fin (noise_value a)) * mx))
   \<and> (\<forall>t. channel act a mx = Fin t \<longrightarrow> 0 \<le> t \<and> t \<le> 255)"
proof -
  have "\<forall>out. forwardNetwork config model x y = Inr out \<longrightarrow>
         getColorAt config model x y g
           = Inr ((channel (activation out 0) (g 0) (maxR config),
                   channel (activation out 1) (g 1) (maxG config),
                   channel (activation out 2) (g 2) (maxB config),
                   Fin 255), \<lambda>i. g (i + 3))"
    using getColorAt_channels [of config model x y _ g] by (simp add: channels_def)
  moreover have "\<forall>p. (act + Fin (noise_value a)) * mx = Fin p \<longrightarrow>
         channel act a mx = Fin (min 255 (max 0 p))"
    by (simp add: channel_def)
  moreover have "channel act a mx = NaN \<longleftrightarrow> isNaN ((act + Fin (noise_value a)) * mx)"
    by (cases "(act + Fin (noise_value a)) * mx") (simp_all add: channel_def)
  ultimately show ?thesis
    using getColorAt_error [of config model x y _ g] noise_value_range [of a]
      channel_range [of act a mx]
    by blast
qed

lemma forward_model_empty:
  assumes "hidden config = Fin 0"
  shows "forwardNetwork config model_empty x y
     = Inr \<lparr>n = Fin 3, d = Fin 1, w = [Fin (1 / 2), Fin (1 / 2), Fin (1 / 2)]\<rparr>"
proof -
  have "shaped (w_in model_empty) 0 3" "shaped (w_out model_empty) 3 0"
    by (simp_all add: shaped_def model_empty_def)
  then have ok: "model_ok model_empty 0 (iters (hidden config))"
    using assms by (simp add: model_ok_def)
  have "layer Math_tanh (w_in model_empty) [x, y, Fin 1] = []"
    by (simp add: layer_def mat_vec_def model_empty_def)
  moreover have "layer sig (w_out model_empty) [] = [Fin (1 / 2), Fin (1 / 2), Fin (1 / 2)]"
    by (simp add: layer_def mat_vec_def dot_product_def upt_3 sig_0 model_empty_def)
  ultimately have "forward_spec config model_empty x y = [Fin (1 / 2), Fin (1 / 2), Fin (1 / 2)]"
    using assms by (simp add: forward_spec_def)
  with forwardNetwork_ok [OF ok, of x y] show ?thesis
    by simp
qed

text \<open>
  C2, as stated, fails: with \<open>maxR = NaN\<close> the red channel that \<^verbatim>\<open>getColorAt\<close> returns is
  \<^verbatim>\<open>NaN\<close>, which is not in \<open>[0, 255]\<close> (\<^verbatim>\<open>Math.max\<close> and \<^verbatim>\<open>Math.min\<close> return \<^verbatim>\<open>NaN\<close> on a
  \<^verbatim>\<open>NaN\<close> argument).
\<close>

theorem getColorAt_NaN_counterexample:
  "forwardNetwork config_nan_maxR model_empty (Fin 0) (Fin 0)
     = Inr \<lparr>n = Fin 3, d = Fin 1, w = [Fin (1 / 2), Fin (1 / 2), Fin (1 / 2)]\<rparr>
   \<and> getColorAt config_nan_maxR model_empty (Fin 0) (Fin 0) (\<lambda>i. 3 / 4)
     = Inr ((NaN, Fin (5253 / 40), Fin (5253 / 40), Fin 255), \<lambda>i. 3 / 4)"
proof -
  have h: "hidden config_nan_maxR = Fin 0"
    by (simp add: config_nan_maxR_def)
  have "getColorAt config_nan_maxR model_empty (Fin 0) (Fin 0) (\<lambda>i. 3 / 4)
      = Inr ((NaN, Fin (5253 / 40), Fin (5253 / 40), Fin 255), \<lambda>i. 3 / 4)"
    by (subst getColorAt_channels [OF forward_model_empty [OF h]])
      (simp add: channels_def channel_def activation_def noise_value_def config_nan_maxR_def
        array_get_def array_index_def plus_number_def times_number_def)
  with forward_model_empty [OF h] show ?thesis
    by simp
qed

theorem getColorAt_noise_clamp_witness:
  "getColorAt config_nan_maxR model_empty (Fin 0) (Fin 0) (\<lambda>i. 3 / 4)
     = Inr ((channel (Fin (1 / 2)) (3 / 4) NaN,
             channel (Fin (1 / 2)) (3 / 4) (Fin 255),
             channel (Fin (1 / 2)) (3 / 4) (Fin 255),
             Fin 255), \<lambda>i. 3 / 4)
   \<and> - (3 / 100) \<le> noise_value (3 / 4) \<and> noise_value (3 / 4) < 3 / 100
   \<and> channel (Fin (1 / 2)) (3 / 4) (Fin 600) = Fin 255
   \<and> channel (Fin (1 / 2)) (3 / 4) (Fin (- 600)) = Fin 0
   \<and> channel (Fin (1 / 2)) (3 / 4) NaN = NaN"
proof -
  let ?out = "\<lparr>n = Fin 3, d = Fin 1, w = [Fin (1 / 2), Fin (1 / 2), Fin (1 / 2)]\<rparr>"
  have h: "hidden config_nan_maxR = Fin 0"
    by (simp add: config_nan_maxR_def)
  note f = forward_model_empty [OF h, of "Fin 0" "Fin 0"]
  have a: "activation ?out 0 = Fin (1 / 2)" "activation ?out 1 = Fin (1 / 2)"
    "activation ?out 2 = Fin (1 / 2)"
    by (simp_all add: activation_def array_get_def array_index_def)
  have p1: "(Fin (1 / 2) + Fin (noise_value (3 / 4))) * Fin 600 = Fin 309"
    and p2: "(Fin (1 / 2) + Fin (noise_value (3 / 4))) * Fin (- 600) = Fin (- 309)"
    by (simp_all add: noise_value_def plus_number_def times_number_def)
  note t1 = getColorAt_noise_clamp [of config_nan_maxR model_empty "Fin 0" "Fin 0" "\<lambda>i. 3 / 4"
      "3 / 4" "Fin (1 / 2)" "Fin 600"]
  note t2 = getColorAt_noise_clamp [of config_nan_maxR model_empty "Fin 0" "Fin 0" "\<lambda>i. 3 / 4"
      "3 / 4" "Fin (1 / 2)" "Fin (- 600)"]
  note t3 = getColorAt_noise_clamp [of config_nan_maxR model_empty "Fin 0" "Fin 0" "\<lambda>i. 3 / 4"
      "3 / 4" "Fin (1 / 2)" NaN]
  from t1 f a have "getColorAt config_nan_maxR model_empty (Fin 0) (Fin 0) (\<lambda>i. 3 / 4)
     = Inr ((channel (Fin (1 / 2)) (3 / 4) NaN,
             channel (Fin (1 / 2)) (3 / 4) (Fin 255),
             channel (Fin (1 / 2)) (3 / 4) (Fin 255),
             Fin 255), \<lambda>i. 3 / 4)"
    by (simp add: config_nan_maxR_def)
  moreover from t1 have "- (3 / 100) \<le> noise_value (3 / 4) \<and> noise_value (3 / 4) < 3 / 100"
    by simp
  moreover from t1 p1 have "channel (Fin (1 / 2)) (3 / 4) (Fin 600) = Fin 255"
    by simp
  moreover from t2 p2 have "channel (Fin (1 / 2)) (3 / 4) (Fin (- 600)) = Fin 0"
    by simp
  moreover from t3 have "channel (Fin (1 / 2)) (3 / 4) NaN = NaN"
    by simp
  ultimately show ?thesis
    by blast
qed

section \<open>The image buffer: properties\<close>

lemma foldE_append: "foldE f (xs @ ys) s = bindE (foldE f xs s) (foldE f ys)"
  by (induction xs arbitrary: s) (simp_all split: sum.splits)

lemma foldE_map: "foldE f (map g xs) s = foldE (\<lambda>x. f (g x)) xs s"
  by (induction xs arbitrary: s) (simp_all split: sum.splits)

lemma foldE_cong:
  "(\<And>x s. x \<in> set xs \<Longrightarrow> f x s = g x s) \<Longrightarrow> foldE f xs s = foldE g xs s"
  by (induction xs arbitrary: s) (simp_all split: sum.splits)

lemma nested_foldE:
  "foldE (\<lambda>y s. foldE (\<lambda>x s. B y x s) [0..<W] s) [0..<H] s
     = foldE (\<lambda>p s. B (p div W) (p mod W) s) [0..<H * W] s"
proof (induction H)
  case 0
  then show ?case by simp
next
  case (Suc H)
  have row: "foldE (\<lambda>x s. B H x s) [0..<W] s'
      = foldE (\<lambda>p s. B (p div W) (p mod W) s) [H * W..<H * W + W] s'" for s'
  proof -
    have "map (\<lambda>x. x + H * W) [0..<W] = [H * W..<W + H * W]"
      by (rule map_add_upt)
    then have m: "[H * W..<H * W + W] = map (\<lambda>x. x + H * W) [0..<W]"
      by (simp only: add.commute [of "H * W" W])
    have "foldE (\<lambda>p s. B (p div W) (p mod W) s) [H * W..<H * W + W] s'
        = foldE (\<lambda>x s. B ((x + H * W) div W) ((x + H * W) mod W) s) [0..<W] s'"
      unfolding m by (rule foldE_map)
    also have "\<dots> = foldE (\<lambda>x s. B H x s) [0..<W] s'"
    proof (rule foldE_cong)
      fix x s
      assume "x \<in> set [0..<W]"
      then have x: "x < W"
        by simp
      then have "(x + H * W) div W = H" "(x + H * W) mod W = x"
        by simp_all
      then show "B ((x + H * W) div W) ((x + H * W) mod W) s = B H x s"
        by (simp only:)
    qed
    finally show ?thesis
      by (rule sym)
  qed
  have "H * W \<le> H * W + W"
    by simp
  then have "[0..<H * W + W] = [0..<H * W] @ [H * W..<H * W + W]"
    using upt_add_eq_append [of 0 "H * W" W] by simp
  moreover have "Suc H * W = H * W + W"
    by simp
  ultimately have split: "[0..<Suc H * W] = [0..<H * W] @ [H * W..<H * W + W]"
    by (simp only:)
  have "foldE (\<lambda>y s. foldE (\<lambda>x s. B y x s) [0..<W] s) [0..<Suc H] s
      = bindE (foldE (\<lambda>y s. foldE (\<lambda>x s. B y x s) [0..<W] s) [0..<H] s)
          (foldE (\<lambda>y s. foldE (\<lambda>x s. B y x s) [0..<W] s) [H])"
    using foldE_append [of "\<lambda>y s. foldE (\<lambda>x s. B y x s) [0..<W] s" "[0..<H]" "[H]" s]
    by simp
  also have "\<dots> = bindE (foldE (\<lambda>p s. B (p div W) (p mod W) s) [0..<H * W] s)
          (foldE (\<lambda>y s. foldE (\<lambda>x s. B y x s) [0..<W] s) [H])"
    by (simp only: Suc.IH)
  also have "(foldE (\<lambda>y s. foldE (\<lambda>x s. B y x s) [0..<W] s) [H])
      = (foldE (\<lambda>p s. B (p div W) (p mod W) s) [H * W..<H * W + W])"
  proof (rule ext)
    fix s'
    have "foldE (\<lambda>y s. foldE (\<lambda>x s. B y x s) [0..<W] s) [H] s' = foldE (\<lambda>x s. B H x s) [0..<W] s'"
      by (cases "foldE (\<lambda>x s. B H x s) [0..<W] s'") simp_all
    then show "foldE (\<lambda>y s. foldE (\<lambda>x s. B y x s) [0..<W] s) [H] s'
        = foldE (\<lambda>p s. B (p div W) (p mod W) s) [H * W..<H * W + W] s'"
      by (simp only: row)
  qed
  also have "bindE (foldE (\<lambda>p s. B (p div W) (p mod W) s) [0..<H * W] s)
          (foldE (\<lambda>p s. B (p div W) (p mod W) s) [H * W..<H * W + W])
      = foldE (\<lambda>p s. B (p div W) (p mod W) s) [0..<Suc H * W] s"
    unfolding split by (rule foldE_append [symmetric])
  finally show ?case .
qed

lemma length_concat_blocks:
  "(\<And>p. length (f p) = 4) \<Longrightarrow> length (concat (map f [0..<m])) = 4 * m"
  by (induction m) simp_all

lemma block_of_concat:
  assumes "\<And>p. length (f p) = 4" and "p < m"
  shows "take 4 (drop (4 * p) (concat (map f [0..<m]))) = f p"
  using assms(2)
proof (induction m)
  case 0
  then show ?case by simp
next
  case (Suc m)
  have len: "length (concat (map f [0..<m])) = 4 * m"
    using assms(1) by (rule length_concat_blocks)
  show ?case
  proof (cases "p < m")
    case True
    then have "4 * p + 4 \<le> 4 * m"
      by simp
    then show ?thesis
      using Suc.IH [OF True] len by simp
  next
    case False
    then have "p = m"
      using Suc.prems by simp
    then show ?thesis
      using len assms(1) by simp
  qed
qed

lemma write_pixel_append:
  assumes "length A = 4 * p" and "4 \<le> length rest"
  shows "write_pixel (A @ rest) (Fin (real (4 * p))) c = A @ quad_bytes c @ drop 4 rest"
proof -
  obtain r g b a where c: "c = (r, g, b, a)"
    by (cases c) auto
  from assms(2) obtain x1 x2 x3 x4 rest' where rest: "rest = x1 # x2 # x3 # x4 # rest'"
    by (cases rest; cases "tl rest"; cases "tl (tl rest)"; cases "tl (tl (tl rest))") auto
  have i: "Fin (real (4 * p)) + Fin 1 = Fin (real (4 * p + 1))"
    "Fin (real (4 * p)) + Fin 2 = Fin (real (4 * p + 2))"
    "Fin (real (4 * p)) + Fin 3 = Fin (real (4 * p + 3))"
    by (simp_all add: plus_number_def)
  show ?thesis
    unfolding write_pixel_def c i array_set_nat
    using assms(1) by (simp add: rest quad_bytes_def list_update_append)
qed

lemma pixel_fold:
  assumes "4 * m \<le> length px"
  shows "foldE (\<lambda>p (pixels, g). Inr (write_pixel pixels (Fin (real (4 * p))) (C p g), \<lambda>i. g (i + 3)))
           [0..<m] (px, t)
     = Inr (concat (map (\<lambda>p. quad_bytes (C p (\<lambda>i. t (i + 3 * p)))) [0..<m]) @ drop (4 * m) px,
            \<lambda>i. t (i + 3 * m))"
  using assms
proof (induction m)
  case 0
  then show ?case by simp
next
  case (Suc m)
  let ?A = "concat (map (\<lambda>p. quad_bytes (C p (\<lambda>i. t (i + 3 * p)))) [0..<m])"
  have lenA: "length ?A = 4 * m"
    by (rule length_concat_blocks) (simp add: quad_bytes_def split: prod.splits)
  have rest: "4 \<le> length (drop (4 * m) px)"
    using Suc.prems by simp
  have ih: "foldE (\<lambda>p (pixels, g). Inr (write_pixel pixels (Fin (real (4 * p))) (C p g), \<lambda>i. g (i + 3)))
           [0..<m] (px, t) = Inr (?A @ drop (4 * m) px, \<lambda>i. t (i + 3 * m))"
    using Suc by simp
  let ?body = "\<lambda>p (pixels, g). Inr (write_pixel pixels (Fin (real (4 * p))) (C p g), \<lambda>i. g (i + 3))"
  have tape: "(\<lambda>i. t (i + 3 + 3 * m)) = (\<lambda>i. t (i + 3 * Suc m))"
    by (simp add: add.assoc)
  have dr: "drop 4 (drop (4 * m) px) = drop (4 * Suc m) px"
    by (simp add: add.commute)
  have "[0..<Suc m] = [0..<m] @ [m]"
    by simp
  then have "foldE ?body [0..<Suc m] (px, t) = bindE (foldE ?body [0..<m] (px, t)) (foldE ?body [m])"
    by (simp only: foldE_append)
  also have "\<dots> = foldE ?body [m] (?A @ drop (4 * m) px, \<lambda>i. t (i + 3 * m))"
    by (simp only: ih bindE_simps)
  also have "\<dots> = Inr (write_pixel (?A @ drop (4 * m) px) (Fin (real (4 * m)))
                          (C m (\<lambda>i. t (i + 3 * m))), \<lambda>i. t (i + 3 + 3 * m))"
    by (simp del: of_nat_mult of_nat_add)
  also have "\<dots> = Inr (?A @ quad_bytes (C m (\<lambda>i. t (i + 3 * m))) @ drop (4 * Suc m) px,
                          \<lambda>i. t (i + 3 * Suc m))"
    by (simp only: write_pixel_append [OF lenA rest] tape dr)
  finally show ?case
    by simp
qed

lemma length_quad_bytes [simp]: "length (quad_bytes c) = 4"
  by (simp add: quad_bytes_def split: prod.splits)

lemma Uint8ClampedArray_new_nat:
  "Uint8ClampedArray_new (Fin (real W) * Fin (real H) * Fin 4) = Inr (replicate (W * H * 4) 0)"
proof -
  have "Fin (real W) * Fin (real H) * Fin 4 = Fin (real (W * H * 4))"
    by (simp add: times_number_def)
  moreover have "ToIndex (Fin (real (W * H * 4))) = Inr (W * H * 4)"
    by (simp add: ToIndex_def del: of_nat_mult)
  ultimately show ?thesis
    by (simp add: Uint8ClampedArray_new_def del: of_nat_mult)
qed

lemma pixel_body:
  assumes w: "width config = Fin (real W)" and h: "height config = Fin (real H)"
    and fw: "\<And>x y. forwardNetwork config model x y = Inr (F x y)"
    and p: "p < H * W"
  shows "bindE (getColorAt config model
                  (Fin (real (p mod W)) / width config) (Fin (real (p div W)) / height config) g)
           (\<lambda>(c, g').
              let idx = (Fin (real (p div W)) * width config + Fin (real (p mod W))) * Fin 4
              in Inr (write_pixel pixels idx c, g'))
     = Inr (write_pixel pixels (Fin (real (4 * p)))
              (channels config (F (Fin (real (p mod W) / real W)) (Fin (real (p div W) / real H))) g),
            \<lambda>i. g (i + 3))"
proof -
  have W: "W \<noteq> 0"
    using p by (cases W) simp_all
  have H: "H \<noteq> 0"
    using p by (cases H) simp_all
  have x: "Fin (real (p mod W)) / width config = Fin (real (p mod W) / real W)"
    using W by (simp add: w divide_number_def)
  have y: "Fin (real (p div W)) / height config = Fin (real (p div W) / real H)"
    using H by (simp add: h divide_number_def)
  have "(p div W) * W + p mod W = p"
    by simp
  then have "real (4 * p) = (real (p div W) * real W + real (p mod W)) * 4"
    by (metis of_nat_add of_nat_mult mult.commute of_nat_numeral)
  then have idx: "(Fin (real (p div W)) * width config + Fin (real (p mod W))) * Fin 4
      = Fin (real (4 * p))"
    by (simp add: w times_number_def plus_number_def del: of_nat_mult of_nat_add)
  show ?thesis
    unfolding x y idx
    by (simp add: getColorAt_channels [OF fw] Let_def)
qed

lemma render_loops:
  assumes w: "width config = Fin (real W)" and h: "height config = Fin (real H)"
    and fw: "\<And>x y. forwardNetwork config model x y = Inr (F x y)"
    and len: "4 * (H * W) \<le> length px"
  shows "for_loopE 0 (height config)
           (\<lambda>y (pixels, g).
              for_loopE 0 (width config)
                (\<lambda>x (pixels, g).
                   bindE (getColorAt config model
                            (Fin (real x) / width config) (Fin (real y) / height config) g)
                     (\<lambda>(c, g').
                        let idx = (Fin (real y) * width config + Fin (real x)) * Fin 4
                        in Inr (write_pixel pixels idx c, g')))
                (pixels, g))
           (px, t)
     = Inr (concat (map (\<lambda>p. quad_bytes
                (channels config (F (Fin (real (p mod W) / real W)) (Fin (real (p div W) / real H)))
                   (\<lambda>i. t (i + 3 * p)))) [0..<H * W]) @ drop (4 * (H * W)) px,
            \<lambda>i. t (i + 3 * (H * W)))"
proof -
  let ?B = "\<lambda>y x (s :: nat list \<times> rng).
       bindE (getColorAt config model
                (Fin (real x) / width config) (Fin (real y) / height config) (snd s))
         (\<lambda>(c, g').
            let idx = (Fin (real y) * width config + Fin (real x)) * Fin 4
            in Inr (write_pixel (fst s) idx c, g'))"
  let ?C = "\<lambda>p g. channels config (F (Fin (real (p mod W) / real W)) (Fin (real (p div W) / real H))) g"
  have "for_loopE 0 (height config)
           (\<lambda>y (pixels, g).
              for_loopE 0 (width config)
                (\<lambda>x (pixels, g).
                   bindE (getColorAt config model
                            (Fin (real x) / width config) (Fin (real y) / height config) g)
                     (\<lambda>(c, g').
                        let idx = (Fin (real y) * width config + Fin (real x)) * Fin 4
                        in Inr (write_pixel pixels idx c, g')))
                (pixels, g))
           (px, t)
      = foldE (\<lambda>y s. foldE (\<lambda>x s. ?B y x s) [0..<W] s) [0..<H] (px, t)"
    by (simp add: for_loopE_fold w h case_prod_unfold)
  also have "\<dots> = foldE (\<lambda>p s. ?B (p div W) (p mod W) s) [0..<H * W] (px, t)"
    by (rule nested_foldE)
  also have "\<dots> = foldE (\<lambda>p (pixels, g).
        Inr (write_pixel pixels (Fin (real (4 * p))) (?C p g), \<lambda>i. g (i + 3))) [0..<H * W] (px, t)"
  proof (rule foldE_cong)
    fix p and s :: "nat list \<times> rng"
    assume "p \<in> set [0..<H * W]"
    then have "p < H * W"
      by simp
    from pixel_body [OF w h fw this, of "snd s" "fst s"]
    show "?B (p div W) (p mod W) s
        = (case s of (pixels, g) \<Rightarrow>
             Inr (write_pixel pixels (Fin (real (4 * p))) (?C p g), \<lambda>i. g (i + 3)))"
      by (simp add: case_prod_unfold)
  qed
  also have "\<dots> = Inr (concat (map (\<lambda>p. quad_bytes (?C p (\<lambda>i. t (i + 3 * p)))) [0..<H * W])
                        @ drop (4 * (H * W)) px, \<lambda>i. t (i + 3 * (H * W)))"
    using len by (rule pixel_fold)
  finally show ?thesis .
qed




section \<open>The forward pass and the random source: properties\<close>

lemma kept_simps [simp]: "kept g (Inl e) = Inl e" "kept g (Inr v) = Inr (v, g)"
  by (simp_all add: kept_def)

lemma fold_kept: "fold (\<lambda>i (s, g). (f i s, g)) js (s, g) = (fold f js s, g)"
  by (induction js arbitrary: s) simp_all

lemma for_loop_kept:
  "for_loop i bound (\<lambda>i (s, g). (f i s, g)) (s, g) = (for_loop i bound f s, g)"
  by (simp add: for_loop_fold fold_kept)

lemma foldE_kept:
  "foldE (\<lambda>i (s, g). kept g (f i s)) js (s, g) = kept g (foldE f js s)"
  by (induction js arbitrary: s) (simp_all split: sum.splits)

lemma for_loopE_kept:
  "for_loopE i bound (\<lambda>i (s, g). kept g (f i s)) (s, g) = kept g (for_loopE i bound f s)"
  by (simp add: for_loopE_fold foldE_kept)

lemma bindE_kept: "bindE (kept g m) (\<lambda>(v, g). kept g (f v)) = kept g (bindE m f)"
  by (cases m) simp_all

lemma kept_case_option:
  "(case opt of None \<Rightarrow> Inl e | Some v \<Rightarrow> kept g (f v))
     = kept g (case opt of None \<Rightarrow> Inl e | Some v \<Rightarrow> f v)"
  by (cases opt) simp_all

lemma Matrix_new_st_kept: "Matrix_new_st rows cols g = kept g (Matrix_new rows cols)"
  by (simp add: Matrix_new_st_def zeros_st_def Matrix_new_def zeros_def
      split: sum.splits)

lemma set_m_st_kept: "set_m_st m row col v g = kept g (set_m m row col v)"
  by (simp add: set_m_st_def set_m_def Let_def)

lemma tanh_m_st_kept: "tanh_m_st m g = kept g (tanh_m m)"
  by (cases "Matrix_new (n m) (d m)")
    (simp_all add: tanh_m_st_def tanh_m_def Matrix_new_st_kept for_loop_kept)

lemma sigmoid_st_kept: "sigmoid_st m g = kept g (sigmoid m)"
  by (cases "Matrix_new (n m) (d m)")
    (simp_all add: sigmoid_st_def sigmoid_def Matrix_new_st_kept sig_st_def sig_def for_loop_kept)

lemma matrixMul_st_kept: "matrixMul_st m1 m2 g = kept g (matrixMul m1 m2)"
proof (cases "Matrix_new (n m1) (d m2)")
  case (Inl e)
  then show ?thesis
    by (simp add: matrixMul_st_def matrixMul_def Matrix_new_st_kept Let_def)
next
  case (Inr out)
  then show ?thesis
    by (simp add: matrixMul_st_def matrixMul_def Matrix_new_st_kept Let_def for_loop_kept
        dot_loop_def)
qed

lemma forwardNetwork_st_kept:
  "forwardNetwork_st config model x y g = kept g (forwardNetwork config model x y)"
proof -
  have layer: "bindE (matrixMul_st m a t) (\<lambda>(m, g). tanh_m_st m g)
      = kept t (bindE (matrixMul m a) tanh_m)" for m a t
    by (cases "matrixMul m a") (simp_all add: matrixMul_st_kept tanh_m_st_kept)
  have last: "bindE (matrixMul_st m a t) (\<lambda>(m, g). sigmoid_st m g)
      = kept t (bindE (matrixMul m a) sigmoid)" for m a t
    by (cases "matrixMul m a") (simp_all add: matrixMul_st_kept sigmoid_st_kept)
  show ?thesis
    unfolding forwardNetwork_st_def forwardNetwork_def Matrix_new_st_kept set_m_st_kept layer last
      kept_case_option for_loopE_kept bindE_kept ..
qed

lemma result_kept [simp]: "result (kept g r) = r"
  by (cases r) (simp_all add: result_def)

lemma getColorAt_st_eq: "getColorAt_st config model x y g = getColorAt config model x y g"
  by (cases "forwardNetwork config model x y")
    (simp_all add: getColorAt_st_def getColorAt_def forwardNetwork_st_kept)




end
